theory Spec2Isabelle
  imports Complex_Main "HOL-Library.Monad_Syntax"
begin

section \<open>Tensors and the engine operations the layers call\<close>

text \<open>
  A tensor is its shape and its entries in row-major order, as a compact array holds
  them. Entries are real numbers: rounding, overflow, infinities and NaN of the
  engine's float32 arithmetic are outside this development. The device and dtype tags
  are carried through every operation unchanged and are left out.
\<close>

record tensor =
  shape :: "nat list"
  data :: "real list"

text \<open>
  A call that raises (a failed assertion, a shape mismatch, an index out of range) has
  the value \<open>None\<close>; the \<open>do\<close> blocks below stop at the first \<open>None\<close>, as the
  exception would.
\<close>

definition wf_tensor :: "tensor \<Rightarrow> bool" where
  "wf_tensor t = (length (data t) = prod_list (shape t))"

text \<open>The offset of a multi-index in the row-major entries of a tensor of shape \<open>s\<close>.\<close>

fun ravel :: "nat list \<Rightarrow> nat list \<Rightarrow> nat" where
  "ravel (n # s) (i # idx) = i * prod_list s + ravel s idx"
| "ravel _ _ = 0"

text \<open>All multi-indices of a shape, in row-major order.\<close>

definition indices :: "nat list \<Rightarrow> nat list list" where
  "indices s = product_lists (map (\<lambda>n. [0..<n]) s)"

definition valid_index :: "nat list \<Rightarrow> nat list \<Rightarrow> bool" where
  "valid_index s idx = list_all2 (\<lambda>i n. i < n) idx s"

definition entry :: "tensor \<Rightarrow> nat list \<Rightarrow> real" where
  "entry t idx = data t ! ravel (shape t) idx"

definition tabulate :: "nat list \<Rightarrow> (nat list \<Rightarrow> real) \<Rightarrow> tensor" where
  "tabulate s f = \<lparr>shape = s, data = map f (indices s)\<rparr>"

text \<open>
  Modelled from the spec: \<open>init.ones\<close> and \<open>init.zeros\<close> of the initialisation
  module, which is not among the sources: a tensor of the given shape filled with a
  constant.
\<close>

definition init_constant :: "nat list \<Rightarrow> real \<Rightarrow> tensor" where
  "init_constant s c = \<lparr>shape = s, data = replicate (prod_list s) c\<rparr>"

definition init_ones :: "nat list \<Rightarrow> tensor" where
  "init_ones s = init_constant s 1"

definition init_zeros :: "nat list \<Rightarrow> tensor" where
  "init_zeros s = init_constant s 0"

section \<open>Python values as the parameter registry sees them\<close>

text \<open>
  The two recursive walks of \<open>nn_basic.py\<close> test a value with \<open>isinstance\<close> against
  \<open>Parameter\<close>, \<open>Module\<close>, \<open>dict\<close> and \<open>(list, tuple)\<close>. A value is therefore one of:
  a Parameter, a plain Tensor, a Module instance (its object identity, its class name
  and its \<open>__dict__\<close>: the attributes in the order they were first assigned, which is the
  order a Python dict iterates in), a dict (its items in iteration order), a list, a
  tuple, or any other value. \<open>PObject\<close> stands for every other object (a set, an
  instance of a class that is not a Module) together with the values it holds; neither
  walk looks inside it.

  The module graph is a tree (the spec's assumption: no cycles). An object referenced
  twice is written twice, with the same identity.
\<close>

datatype pyval =
    PParameter tensor
  | PTensor tensor
  | PModule nat string "(string \<times> pyval) list"
  | PDict "(string \<times> pyval) list"
  | PList "pyval list"
  | PTuple "pyval list"
  | PBool bool
  | PNum real
  | PStr string
  | PNone
  | PObject "pyval list"

text \<open>
  \<open>_unpack_params\<close> (nn_basic.py, lines 14-30). Each loop starts from \<open>params = []\<close>
  and runs \<open>params += _unpack_params(v)\<close> over the items. For a Module the source
  returns \<open>value.parameters()\<close>, which is \<open>_unpack_params(value.__dict__)\<close>: the dict
  branch applied to the attributes (lemma \<open>unpack_params_Module\<close> below).
\<close>

fun unpack_params :: "pyval \<Rightarrow> pyval list" where
  "unpack_params (PParameter t) = [PParameter t]"
| "unpack_params (PModule i c d) = foldl (\<lambda>params (k, v). params @ unpack_params v) [] d"
| "unpack_params (PDict d) = foldl (\<lambda>params (k, v). params @ unpack_params v) [] d"
| "unpack_params (PList xs) = foldl (\<lambda>params v. params @ unpack_params v) [] xs"
| "unpack_params (PTuple xs) = foldl (\<lambda>params v. params @ unpack_params v) [] xs"
| "unpack_params _ = []"

text \<open>\<open>self.__dict__\<close> and \<open>id(self)\<close> of a Module instance.\<close>

fun obj_dict :: "pyval \<Rightarrow> (string \<times> pyval) list" where
  "obj_dict (PModule i c d) = d"
| "obj_dict _ = []"

fun obj_id :: "pyval \<Rightarrow> nat" where
  "obj_id (PModule i c d) = i"
| "obj_id _ = 0"

text \<open>\<open>Module.parameters\<close> (nn_basic.py, lines 56-58).\<close>

definition Module_parameters :: "pyval \<Rightarrow> pyval list" where
  "Module_parameters self = unpack_params (PDict (obj_dict self))"

text \<open>
  The recursion rule of the specification (section 4.1), in its own words: a Parameter
  contributes itself; a Module contributes its own parameter list, which is the rule
  applied to its attributes; a mapping contributes the concatenation over its values in
  the order of its keys; a list or tuple contributes the concatenation over its
  elements in iteration order; any other value contributes nothing. The order of the
  keys of a mapping is the order in which the mapping yields them, which for a Python
  dict is insertion order (section 3: "insertion/declaration order").
\<close>

fun params_rule :: "pyval \<Rightarrow> pyval list" where
  "params_rule (PParameter t) = [PParameter t]"
| "params_rule (PModule i c d) = concat (map (\<lambda>(k, v). params_rule v) d)"
| "params_rule (PDict d) = concat (map (\<lambda>(k, v). params_rule v) d)"
| "params_rule (PList xs) = concat (map params_rule xs)"
| "params_rule (PTuple xs) = concat (map params_rule xs)"
| "params_rule _ = []"

text \<open>
  \<open>_child_modules\<close> (nn_basic.py, lines 33-49). For a Module the source starts from
  \<open>modules = [value]\<close> and extends it by \<open>_child_modules(value.__dict__)\<close>: the dict
  branch applied to the attributes.
\<close>

fun child_modules :: "pyval \<Rightarrow> pyval list" where
  "child_modules (PModule i c d) =
     PModule i c d # foldl (\<lambda>modules (k, v). modules @ child_modules v) [] d"
| "child_modules (PDict d) = foldl (\<lambda>modules (k, v). modules @ child_modules v) [] d"
| "child_modules (PList xs) = foldl (\<lambda>modules v. modules @ child_modules v) [] xs"
| "child_modules (PTuple xs) = foldl (\<lambda>modules v. modules @ child_modules v) [] xs"
| "child_modules _ = []"

text \<open>\<open>Module._children\<close> (lines 60-61).\<close>

definition Module_children :: "pyval \<Rightarrow> pyval list" where
  "Module_children self = child_modules (PDict (obj_dict self))"

text \<open>
  Attribute assignment \<open>obj.k = x\<close> on a \<open>__dict__\<close>: an existing key keeps its place,
  a new key goes to the end.
\<close>

fun setattr :: "(string \<times> pyval) list \<Rightarrow> string \<Rightarrow> pyval \<Rightarrow> (string \<times> pyval) list" where
  "setattr [] k x = [(k, x)]"
| "setattr ((k', x') # d) k x = (if k' = k then (k, x) # d else (k', x') # setattr d k x)"

definition getattr :: "pyval \<Rightarrow> string \<Rightarrow> pyval option" where
  "getattr obj k = map_of (obj_dict obj) k"

text \<open>
  \<open>m.training = b\<close> for the Module object with identity \<open>i\<close>, as seen from a value that
  holds references to it: the object is mutated in place, so every occurrence of the
  identity shows the new flag, wherever it is held.
\<close>

fun set_training :: "nat \<Rightarrow> bool \<Rightarrow> pyval \<Rightarrow> pyval" where
  "set_training i b (PModule j c d) =
     (let d' = map (\<lambda>(k, v). (k, set_training i b v)) d
      in PModule j c (if j = i then setattr d' ''training'' (PBool b) else d'))"
| "set_training i b (PDict d) = PDict (map (\<lambda>(k, v). (k, set_training i b v)) d)"
| "set_training i b (PList xs) = PList (map (set_training i b) xs)"
| "set_training i b (PTuple xs) = PTuple (map (set_training i b) xs)"
| "set_training i b (PObject xs) = PObject (map (set_training i b) xs)"
| "set_training i b v = v"

text \<open>
  \<open>Module.eval\<close> and \<open>Module.train\<close> (lines 63-71): the own flag first, then the flag
  of every Module that \<open>self._children()\<close> returns.
\<close>

definition Module_eval :: "pyval \<Rightarrow> pyval" where
  "Module_eval self =
     (let self1 = set_training (obj_id self) False self
      in foldl (\<lambda>root m. set_training (obj_id m) False root) self1 (Module_children self1))"

definition Module_train :: "pyval \<Rightarrow> pyval" where
  "Module_train self =
     (let self1 = set_training (obj_id self) True self
      in foldl (\<lambda>root m. set_training (obj_id m) True root) self1 (Module_children self1))"

text \<open>
  The Modules reachable from a value through attributes of Modules, values of dicts and
  elements of lists and tuples: the nested structures the specification names.
\<close>

inductive reachable :: "pyval \<Rightarrow> pyval \<Rightarrow> bool" where
  reach_self: "reachable (PModule i c d) (PModule i c d)"
| reach_attr: "(k, v) \<in> set d \<Longrightarrow> reachable v m \<Longrightarrow> reachable (PModule i c d) m"
| reach_item: "(k, v) \<in> set d \<Longrightarrow> reachable v m \<Longrightarrow> reachable (PDict d) m"
| reach_list: "v \<in> set xs \<Longrightarrow> reachable v m \<Longrightarrow> reachable (PList xs) m"
| reach_tuple: "v \<in> set xs \<Longrightarrow> reachable v m \<Longrightarrow> reachable (PTuple xs) m"

text \<open>
  The flag assignments of one \<open>eval\<close> or \<open>train\<close> call taken together: every object
  whose identity is in \<open>S\<close> gets the flag (used in the proofs).
\<close>

fun set_training_many :: "nat set \<Rightarrow> bool \<Rightarrow> pyval \<Rightarrow> pyval" where
  "set_training_many S b (PModule j c d) =
     (let d' = map (\<lambda>(k, v). (k, set_training_many S b v)) d
      in PModule j c (if j \<in> S then setattr d' ''training'' (PBool b) else d'))"
| "set_training_many S b (PDict d) = PDict (map (\<lambda>(k, v). (k, set_training_many S b v)) d)"
| "set_training_many S b (PList xs) = PList (map (set_training_many S b) xs)"
| "set_training_many S b (PTuple xs) = PTuple (map (set_training_many S b) xs)"
| "set_training_many S b (PObject xs) = PObject (map (set_training_many S b) xs)"
| "set_training_many S b v = v"

text \<open>
  \<open>Module.__init__\<close> sets \<open>self.training = True\<close> before a subclass assigns
  anything else, so the attribute of every Module is a bool.
\<close>

fun is_flag :: "pyval option \<Rightarrow> bool" where
  "is_flag (Some (PBool b)) = True"
| "is_flag _ = False"

definition flags_are_bools :: "pyval \<Rightarrow> bool" where
  "flags_are_bools v = list_all (\<lambda>m. is_flag (getattr m ''training'')) (child_modules v)"

section \<open>The engine's tensor operations\<close>

text \<open>
  Modelled from the spec: the operations of the tensor engine (section 6: elementwise
  arithmetic and exponential, broadcast-to-shape, reshape, axis transpose, reduction
  over an axis), which is not among the sources. Each is the usual operation on
  row-major arrays and raises where the shapes do not fit: \<open>reshape\<close> needs the same
  number of entries; \<open>broadcast_to\<close> needs the same rank and, axis by axis, the same
  size or size 1; an elementwise operation on two tensors needs equal shapes; a
  reduction needs an axis of the tensor, and a maximum needs the axis to be non-empty.
\<close>

definition reshape :: "tensor \<Rightarrow> nat list \<Rightarrow> tensor option" where
  "reshape t s = (if prod_list s = prod_list (shape t) then Some (t\<lparr>shape := s\<rparr>) else None)"

definition broadcast_index :: "nat list \<Rightarrow> nat list \<Rightarrow> nat list" where
  "broadcast_index s idx = map2 (\<lambda>n i. if n = 1 then 0 else i) s idx"

definition broadcast_to :: "tensor \<Rightarrow> nat list \<Rightarrow> tensor option" where
  "broadcast_to t s =
     (if list_all2 (\<lambda>n m. n = m \<or> n = 1) (shape t) s
      then Some (tabulate s (\<lambda>idx. entry t (broadcast_index (shape t) idx)))
      else None)"

definition drop_axis :: "nat \<Rightarrow> 'a list \<Rightarrow> 'a list" where
  "drop_axis ax s = take ax s @ drop (Suc ax) s"

definition put_axis :: "nat \<Rightarrow> 'a \<Rightarrow> 'a list \<Rightarrow> 'a list" where
  "put_axis ax k idx = take ax idx @ k # drop ax idx"

definition summation :: "tensor \<Rightarrow> nat \<Rightarrow> tensor option" where
  "summation t ax =
     (if ax < length (shape t)
      then Some (tabulate (drop_axis ax (shape t))
             (\<lambda>idx. sum_list (map (\<lambda>k. entry t (put_axis ax k idx)) [0..<shape t ! ax])))
      else None)"



definition ewise :: "(real \<Rightarrow> real \<Rightarrow> real) \<Rightarrow> tensor \<Rightarrow> tensor \<Rightarrow> tensor option" where
  "ewise f a b =
     (if shape a = shape b then Some \<lparr>shape = shape a, data = map2 f (data a) (data b)\<rparr>
      else None)"

definition ewise_add :: "tensor \<Rightarrow> tensor \<Rightarrow> tensor option" where
  "ewise_add = ewise (\<lambda>u v. u + v)"

definition ewise_sub :: "tensor \<Rightarrow> tensor \<Rightarrow> tensor option" where
  "ewise_sub = ewise (\<lambda>u v. u - v)"

definition ewise_mul :: "tensor \<Rightarrow> tensor \<Rightarrow> tensor option" where
  "ewise_mul = ewise (\<lambda>u v. u * v)"

definition ewise_div :: "tensor \<Rightarrow> tensor \<Rightarrow> tensor option" where
  "ewise_div = ewise (\<lambda>u v. u / v)"

definition map_tensor :: "(real \<Rightarrow> real) \<Rightarrow> tensor \<Rightarrow> tensor" where
  "map_tensor f t = t\<lparr>data := map f (data t)\<rparr>"

definition add_scalar :: "tensor \<Rightarrow> real \<Rightarrow> tensor" where
  "add_scalar t c = map_tensor (\<lambda>v. v + c) t"

definition mul_scalar :: "tensor \<Rightarrow> real \<Rightarrow> tensor" where
  "mul_scalar t c = map_tensor (\<lambda>v. v * c) t"

definition div_scalar :: "tensor \<Rightarrow> real \<Rightarrow> tensor" where
  "div_scalar t c = map_tensor (\<lambda>v. v / c) t"

text \<open>
  \<open>t ** 2\<close> (an integer exponent) and \<open>t ** 0.5\<close> (a float exponent; on a negative
  entry the engine gives NaN, which the reals do not have).
\<close>

definition power_int_scalar :: "tensor \<Rightarrow> nat \<Rightarrow> tensor" where
  "power_int_scalar t n = map_tensor (\<lambda>v. v ^ n) t"

definition power_float_scalar :: "tensor \<Rightarrow> real \<Rightarrow> tensor" where
  "power_float_scalar t r = map_tensor (\<lambda>v. v powr r) t"

definition exp_tensor :: "tensor \<Rightarrow> tensor" where
  "exp_tensor t = map_tensor exp t"

definition swap_axes :: "nat \<Rightarrow> nat \<Rightarrow> 'a list \<Rightarrow> 'a list" where
  "swap_axes i j xs = xs[i := xs ! j, j := xs ! i]"

definition transpose_axes :: "tensor \<Rightarrow> nat \<Rightarrow> nat \<Rightarrow> tensor option" where
  "transpose_axes t i j =
     (if i < length (shape t) \<and> j < length (shape t)
      then Some (tabulate (swap_axes i j (shape t)) (\<lambda>idx. entry t (swap_axes i j idx)))
      else None)"

section \<open>Layers of \<open>nn_basic.py\<close>\<close>

text \<open>\<open>Module.__init__\<close> (lines 52-54): every layer starts in training mode.\<close>

record Module =
  training :: bool

text \<open>
  \<open>Dropout\<close> (lines 214-227). \<open>randb\<close> is the sample \<open>init.randb\<close> draws for a shape
  and a keep probability: the random generator is outside the sources, so the draw is
  an argument.
\<close>

record Dropout = Module +
  p :: real

definition Dropout_init :: "real \<Rightarrow> Dropout" where
  "Dropout_init p0 = \<lparr>training = True, p = p0\<rparr>"

definition Dropout_forward :: "Dropout \<Rightarrow> (nat list \<Rightarrow> real \<Rightarrow> tensor) \<Rightarrow> tensor \<Rightarrow> tensor option" where
  "Dropout_forward self randb x =
     (if training self
      then do {
        y \<leftarrow> ewise_mul x (randb (shape x) (1 - p self));
        Some (div_scalar y (1 - p self))
      }
      else Some x)"

definition Dropout_obj :: "nat \<Rightarrow> Dropout \<Rightarrow> pyval" where
  "Dropout_obj i self =
     PModule i ''Dropout'' [(''training'', PBool (training self)), (''p'', PNum (p self))]"

text \<open>A model with children in a tuple, in an attribute, and in a list inside a dict.\<close>

definition example_model :: pyval where
  "example_model =
     PModule 0 ''Sequential''
       [(''training'', PBool True),
        (''modules'', PTuple
           [Dropout_obj 1 (Dropout_init (1/2)),
            PModule 2 ''Residual'' [(''training'', PBool True), (''fn'', Dropout_obj 3 (Dropout_init (1/4)))],
            PModule 4 ''Holder'' [(''training'', PBool True),
              (''table'', PDict [(''a'', PList [Dropout_obj 5 (Dropout_init 0)])])]])]"

section \<open>The convolution layer of \<open>nn_conv.py\<close>\<close>

text \<open>
  \<open>kernel_size\<close> and \<open>stride\<close> may be an int or a tuple, of which the constructor
  takes element 0 (an IndexError on the empty tuple).
\<close>

datatype int_or_tuple = IntArg nat | TupleArg "nat list"

fun first_if_tuple :: "int_or_tuple \<Rightarrow> nat option" where
  "first_if_tuple (IntArg n) = Some n"
| "first_if_tuple (TupleArg []) = None"
| "first_if_tuple (TupleArg (n # ns)) = Some n"

text \<open>
  \<open>kaiming_uniform\<close> (init_initializers.py, lines 19-32) with the default
  nonlinearity. \<open>rand\<close> is the draw of \<open>init.rand\<close> for a shape and the two bounds
  (the random generator is outside the sources). \<open>3 / fan_in\<close> raises on \<open>fan_in = 0\<close>.
\<close>

definition kaiming_uniform ::
  "(nat list \<Rightarrow> real \<Rightarrow> real \<Rightarrow> tensor) \<Rightarrow> nat \<Rightarrow> nat \<Rightarrow> nat list \<Rightarrow> tensor option" where
  "kaiming_uniform rand fan_in fan_out shp =
     (if fan_in = 0 then None
      else let gain = sqrt 2; bound = sqrt (3 / real fan_in) * gain
           in if shp \<noteq> [] then Some (rand shp (- bound) bound)
              else Some (rand [fan_in, fan_out] (- bound) bound))"

text \<open>
  \<open>Conv.__init__\<close> (nn_conv.py, lines 19-47). The bias is an optional attribute:
  a Parameter of shape \<open>(out_channels,)\<close>, or \<open>None\<close>. Its bounds divide by
  \<open>(in_channels * kernel_size**2)**0.5\<close>, which raises on zero.
\<close>

record Conv = Module +
  in_channels :: nat
  out_channels :: nat
  kernel_size :: nat
  stride :: nat
  padding :: int
  weight :: tensor
  bias :: "tensor option"

definition Conv_init ::
  "(nat list \<Rightarrow> real \<Rightarrow> real \<Rightarrow> tensor) \<Rightarrow> nat \<Rightarrow> nat \<Rightarrow> int_or_tuple \<Rightarrow> int_or_tuple \<Rightarrow> bool
     \<Rightarrow> Conv option" where
  "Conv_init rand in_c out_c ks st use_bias = do {
     k \<leftarrow> first_if_tuple ks;
     s \<leftarrow> first_if_tuple st;
     w \<leftarrow> kaiming_uniform rand (in_c * k\<^sup>2) (out_c * k\<^sup>2) [k, k, in_c, out_c];
     b \<leftarrow> (if use_bias
           then (if in_c * k\<^sup>2 = 0 then None
                 else Some (Some (rand [out_c] (- 1 / sqrt (real (in_c * k\<^sup>2)))
                                   (1 / sqrt (real (in_c * k\<^sup>2))))))
           else Some None);
     Some \<lparr>training = True, in_channels = in_c, out_channels = out_c, kernel_size = k,
           stride = s, padding = (int k - 1) div 2, weight = w, bias = b\<rparr>
   }"

text \<open>
  \<open>Conv.forward\<close> (lines 49-58). \<open>conv\<close> is the engine's convolution primitive
  \<open>ops.conv\<close> (input in channel-last layout, weight, stride, padding), which is not
  among the sources. The test \<open>if self.bias:\<close> takes the truth value of the attribute:
  \<open>None\<close> is false, and for a Tensor it is \<open>truth\<close>, the truth value the engine's
  Tensor class gives (Python's default for a class that defines neither \<open>__bool__\<close> nor
  \<open>__len__\<close> is true for every object).
\<close>

definition Conv_forward ::
  "(tensor \<Rightarrow> bool) \<Rightarrow> (tensor \<Rightarrow> tensor \<Rightarrow> nat \<Rightarrow> int \<Rightarrow> tensor option) \<Rightarrow> Conv \<Rightarrow> tensor
     \<Rightarrow> tensor option" where
  "Conv_forward truth conv self x = do {
     x1 \<leftarrow> transpose_axes x 1 2;
     nhwc_x \<leftarrow> transpose_axes x1 2 3;
     nhwc_output \<leftarrow> conv nhwc_x (weight self) (stride self) (padding self);
     nhwc_output1 \<leftarrow>
       (case bias self of
          None \<Rightarrow> Some nhwc_output
        | Some b \<Rightarrow>
            if truth b
            then do {
              b1 \<leftarrow> reshape b [1, 1, 1, out_channels self];
              b2 \<leftarrow> broadcast_to b1 (shape nhwc_output);
              ewise_add nhwc_output b2
            }
            else Some nhwc_output);
     y1 \<leftarrow> transpose_axes nhwc_output1 2 3;
     transpose_axes y1 1 2
   }"

text \<open>The layout conversion of line 51, named.\<close>

definition nchw_to_nhwc :: "tensor \<Rightarrow> tensor option" where
  "nchw_to_nhwc x = do { x1 \<leftarrow> transpose_axes x 1 2; transpose_axes x1 2 3 }"

section \<open>BatchNorm1d and Sequential of \<open>nn_basic.py\<close>\<close>

text \<open>
  \<open>BatchNorm1d\<close> (lines 152-175). \<open>BatchNorm1d_dict\<close> is the \<open>__dict__\<close> the
  constructor builds, attribute by attribute in the order of assignment: \<open>weight\<close> and
  \<open>bias\<close> are wrapped in \<open>Parameter\<close>, the running statistics are plain Tensors (and
  stay so: \<open>forward\<close> assigns them results of Tensor arithmetic). The device tag
  (\<open>None\<close> by default) is a value neither walk enters.
\<close>

record BatchNorm1d = Module +
  dim :: nat
  eps :: real
  momentum :: real
  weight :: tensor
  bias :: tensor
  running_mean :: tensor
  running_var :: tensor

definition BatchNorm1d_init :: "nat \<Rightarrow> real \<Rightarrow> real \<Rightarrow> BatchNorm1d" where
  "BatchNorm1d_init d e m =
     \<lparr>training = True, dim = d, eps = e, momentum = m,
      weight = init_ones [d], bias = init_zeros [d],
      running_mean = init_zeros [d], running_var = init_ones [d]\<rparr>"

text \<open>\<open>BatchNorm2d.__init__\<close> (lines 177-179) only calls the constructor it inherits.\<close>

definition BatchNorm2d_init :: "nat \<Rightarrow> real \<Rightarrow> real \<Rightarrow> BatchNorm1d" where
  "BatchNorm2d_init d e m = BatchNorm1d_init d e m"

definition BatchNorm1d_dict :: "BatchNorm1d \<Rightarrow> (string \<times> pyval) list" where
  "BatchNorm1d_dict self =
     [(''training'', PBool (training self)),
      (''dim'', PNum (real (dim self))),
      (''eps'', PNum (eps self)),
      (''momentum'', PNum (momentum self)),
      (''weight'', PParameter (weight self)),
      (''bias'', PParameter (bias self)),
      (''running_mean'', PTensor (running_mean self)),
      (''running_var'', PTensor (running_var self)),
      (''device'', PNone)]"

definition BatchNorm1d_obj :: "nat \<Rightarrow> BatchNorm1d \<Rightarrow> pyval" where
  "BatchNorm1d_obj i self = PModule i ''BatchNorm1d'' (BatchNorm1d_dict self)"

definition BatchNorm2d_obj :: "nat \<Rightarrow> BatchNorm1d \<Rightarrow> pyval" where
  "BatchNorm2d_obj i self = PModule i ''BatchNorm2d'' (BatchNorm1d_dict self)"

text \<open>
  \<open>BatchNorm1d.forward\<close> (lines 165-175). Both branches return the same expression,
  \<open>(x - m) / (v + eps) ** 0.5 * weight + bias\<close> with every vector reshaped to
  \<open>(1, dim)\<close> and broadcast to the shape of \<open>x\<close>; \<open>BatchNorm1d_output\<close> is that
  expression, with \<open>m\<close> and \<open>v\<close> the batch statistics in training mode and the running
  statistics otherwise. \<open>BatchNorm1d_batch_stats\<close> is lines 169-170.

  The call returns its result, or \<open>None\<close> where it raises, together with the layer as
  the call leaves it: the two assignments of lines 171-172 stay done when a later step
  raises.
\<close>

definition BatchNorm1d_output :: "BatchNorm1d \<Rightarrow> tensor \<Rightarrow> tensor \<Rightarrow> tensor \<Rightarrow> tensor option" where
  "BatchNorm1d_output self x avg var = do {
     a1 \<leftarrow> reshape avg [1, dim self];
     ab \<leftarrow> broadcast_to a1 (shape x);
     c \<leftarrow> ewise_sub x ab;
     v1 \<leftarrow> reshape var [1, dim self];
     vb \<leftarrow> broadcast_to v1 (shape x);
     q \<leftarrow> ewise_div c (power_float_scalar (add_scalar vb (eps self)) (1/2));
     w1 \<leftarrow> reshape (weight self) [1, dim self];
     wb \<leftarrow> broadcast_to w1 (shape x);
     y \<leftarrow> ewise_mul q wb;
     b1 \<leftarrow> reshape (bias self) [1, dim self];
     bb \<leftarrow> broadcast_to b1 (shape x);
     ewise_add y bb
   }"

definition BatchNorm1d_batch_stats :: "BatchNorm1d \<Rightarrow> tensor \<Rightarrow> nat \<Rightarrow> (tensor \<times> tensor) option" where
  "BatchNorm1d_batch_stats self x batch = do {
     s \<leftarrow> summation x 0;
     let avg = div_scalar s (real batch);
     a1 \<leftarrow> reshape avg [1, dim self];
     ab \<leftarrow> broadcast_to a1 (shape x);
     c \<leftarrow> ewise_sub x ab;
     s2 \<leftarrow> summation (power_int_scalar c 2) 0;
     Some (avg, div_scalar s2 (real batch))
   }"

definition BatchNorm1d_forward :: "BatchNorm1d \<Rightarrow> tensor \<Rightarrow> tensor option \<times> BatchNorm1d" where
  "BatchNorm1d_forward self x =
     (case shape x of
        [] \<Rightarrow> (None, self)
      | batch # _ \<Rightarrow>
          if training self then
            (case BatchNorm1d_batch_stats self x batch of
               None \<Rightarrow> (None, self)
             | Some (avg, var) \<Rightarrow>
                 (case ewise_add (mul_scalar (running_mean self) (1 - momentum self))
                         (mul_scalar avg (momentum self)) of
                    None \<Rightarrow> (None, self)
                  | Some rm \<Rightarrow>
                      let self1 = self\<lparr>running_mean := rm\<rparr> in
                      (case ewise_add (mul_scalar (running_var self1) (1 - momentum self1))
                              (mul_scalar var (momentum self1)) of
                         None \<Rightarrow> (None, self1)
                       | Some rv \<Rightarrow>
                           let self2 = self1\<lparr>running_var := rv\<rparr> in
                           (BatchNorm1d_output self2 x avg var, self2))))
          else (BatchNorm1d_output self x (running_mean self) (running_var self), self))"

text \<open>
  The per-feature mean and (biased) variance of a batch \<open>x\<close> of shape (batch, dim), as
  the specification words them.
\<close>

definition batch_mean :: "tensor \<Rightarrow> nat \<Rightarrow> real" where
  "batch_mean x j = sum_list (map (\<lambda>i. entry x [i, j]) [0..<shape x ! 0]) / real (shape x ! 0)"

definition batch_var :: "tensor \<Rightarrow> nat \<Rightarrow> real" where
  "batch_var x j =
     sum_list (map (\<lambda>i. (entry x [i, j] - batch_mean x j)\<^sup>2) [0..<shape x ! 0]) / real (shape x ! 0)"

text \<open>
  What the constructor establishes and \<open>forward\<close> keeps: the four vectors of the layer
  have shape \<open>(dim,)\<close>.
\<close>

definition BatchNorm1d_inv :: "BatchNorm1d \<Rightarrow> bool" where
  "BatchNorm1d_inv self =
     (wf_tensor (weight self) \<and> shape (weight self) = [dim self]
      \<and> wf_tensor (bias self) \<and> shape (bias self) = [dim self]
      \<and> wf_tensor (running_mean self) \<and> shape (running_mean self) = [dim self]
      \<and> wf_tensor (running_var self) \<and> shape (running_var self) = [dim self])"

text \<open>
  \<open>Sequential.forward\<close> (lines 134-138): \<open>for module in self.modules: x = module(x)\<close>.
  \<open>call\<close> is \<open>module(x)\<close>, the \<open>forward\<close> of the child, which returns the result and
  the child as the call leaves it. When a child raises, the children before it keep
  what their calls did to them.
\<close>

fun Sequential_forward ::
  "('m \<Rightarrow> tensor \<Rightarrow> tensor option \<times> 'm) \<Rightarrow> 'm list \<Rightarrow> tensor \<Rightarrow> tensor option \<times> 'm list" where
  "Sequential_forward call [] x = (Some x, [])"
| "Sequential_forward call (m # ms) x =
     (case call m x of
        (None, m') \<Rightarrow> (None, m' # ms)
      | (Some y, m') \<Rightarrow> (case Sequential_forward call ms y of (r, ms') \<Rightarrow> (r, m' # ms')))"

section \<open>MultiHeadAttention of \<open>nn_transformer.py\<close>\<close>

text \<open>
  Python's negative indices on a list: \<open>xs[-k]\<close> and \<open>xs[-k] = v\<close> raise IndexError
  unless the list has at least \<open>k\<close> elements.
\<close>

definition py_index_neg :: "'a list \<Rightarrow> nat \<Rightarrow> 'a option" where
  "py_index_neg xs k = (if 0 < k \<and> k \<le> length xs then Some (xs ! (length xs - k)) else None)"

definition py_set_neg :: "'a list \<Rightarrow> nat \<Rightarrow> 'a \<Rightarrow> 'a list option" where
  "py_set_neg xs k v = (if 0 < k \<and> k \<le> length xs then Some (xs[length xs - k := v]) else None)"

text \<open>
  \<open>MultiHeadAttention.matmul\<close> (lines 50-68). The slices \<open>shape[:-1]\<close>, \<open>shape[-1:]\<close>,
  \<open>shape[:-2]\<close> and \<open>shape[-2:]\<close> are \<open>take\<close> and \<open>drop\<close> at the length minus one or
  two (which stops at 0, as a slice does). The last line sums over the last axis of the
  broadcast \<open>a\<close>.
\<close>

definition MultiHeadAttention_matmul :: "tensor \<Rightarrow> tensor \<Rightarrow> tensor option" where
  "MultiHeadAttention_matmul a b_transpose = do {
     let a_shape = take (length (shape a) - 1) (shape a) @ [1] @ drop (length (shape a) - 1) (shape a);
     a1 \<leftarrow> reshape a a_shape;
     let b_transpose_shape = take (length (shape b_transpose) - 2) (shape b_transpose) @ [1]
                               @ drop (length (shape b_transpose) - 2) (shape b_transpose);
     b1 \<leftarrow> reshape b_transpose b_transpose_shape;
     n \<leftarrow> py_index_neg b_transpose_shape 2;
     broadcast_shape \<leftarrow> py_set_neg a_shape 2 n;
     a2 \<leftarrow> broadcast_to a1 broadcast_shape;
     m \<leftarrow> py_index_neg a_shape 3;
     broadcast_shape' \<leftarrow> py_set_neg b_transpose_shape 3 m;
     b2 \<leftarrow> broadcast_to b1 broadcast_shape';
     c \<leftarrow> ewise_mul a2 b2;
     summation c (length (shape a2) - 1)
   }"

text \<open>
  The reference batched matrix product of the specification, for \<open>a\<close> of shape
  (B, H, m, d) and \<open>b_transpose\<close> of shape (B, H, n, d): the tensor of shape
  (B, H, m, n) with entries \<open>result[b,h,i,j] = sum over k of a[b,h,i,k] *
  b_transpose[b,h,j,k]\<close>.
\<close>

definition batched_matmul_reference :: "tensor \<Rightarrow> tensor \<Rightarrow> tensor" where
  "batched_matmul_reference a b_transpose =
     tabulate [shape a ! 0, shape a ! 1, shape a ! 2, shape b_transpose ! 2]
       (\<lambda>idx. \<Sum>k<shape a ! 3.
          entry a [idx ! 0, idx ! 1, idx ! 2, k] * entry b_transpose [idx ! 0, idx ! 1, idx ! 3, k])"






definition summation_with :: "(real list \<Rightarrow> real) \<Rightarrow> tensor \<Rightarrow> nat \<Rightarrow> tensor option" where
  "summation_with f t ax =
     (if ax < length (shape t)
      then Some (tabulate (drop_axis ax (shape t))
             (\<lambda>idx. f (map (\<lambda>k. entry t (put_axis ax k idx)) [0..<shape t ! ax])))
      else None)"





section \<open>The Transformer of \<open>nn_transformer.py\<close>\<close>

text \<open>
  \<open>Transformer.forward\<close> (lines 332-353). The two sub-modules it calls are callable
  attributes: \<open>position_embedding\<close> (an \<open>Embedding\<close> of \<open>nn_sequence\<close>, which is not
  among the sources) and \<open>transformer_layers\<close> (the \<open>Sequential\<close> of TransformerLayers,
  with the random draws of its Dropouts fixed). Each is the function its \<open>forward\<close>
  computes. The second argument \<open>h\<close> may be any value; its default is \<open>None\<close>.
\<close>

record Transformer = Module +
  batch_first :: bool
  sequence_len :: nat
  position_embedding :: "tensor \<Rightarrow> tensor option"
  transformer_layers :: "tensor \<Rightarrow> tensor option"

text \<open>\<open>np.arange(l).reshape(l, 1)\<close>.\<close>

definition arange_column :: "nat \<Rightarrow> tensor" where
  "arange_column l = \<lparr>shape = [l, 1], data = map real [0..<l]\<rparr>"

definition Transformer_forward :: "Transformer \<Rightarrow> tensor \<Rightarrow> pyval \<Rightarrow> (tensor \<times> tensor) option" where
  "Transformer_forward self x h = do {
     x1 \<leftarrow> (if \<not> batch_first self then transpose_axes x 0 1 else Some x);
     (b, l, d) \<leftarrow> (case shape x1 of [b, l, d] \<Rightarrow> Some (b, l, d) | _ \<Rightarrow> None);
     pos \<leftarrow> broadcast_to (arange_column l) [l, b];
     pos1 \<leftarrow> position_embedding self pos;
     pos2 \<leftarrow> transpose_axes pos1 0 1;
     x2 \<leftarrow> ewise_add x1 pos2;
     x3 \<leftarrow> transformer_layers self x2;
     x4 \<leftarrow> (if \<not> batch_first self then transpose_axes x3 0 1 else Some x3);
     Some (x4, init_zeros (shape x4))
   }"

section \<open>The parameter registry: lemmas\<close>

lemma foldl_append_concat:
  "foldl (\<lambda>acc x. acc @ f x) a xs = a @ concat (map f xs)"
  by (induction xs arbitrary: a) simp_all

lemma foldl_append_concat_items:
  "foldl (\<lambda>acc (k, v). acc @ f v) a d = a @ concat (map (\<lambda>(k, v). f v) d)"
  by (induction d arbitrary: a) (simp_all add: case_prod_beta)

lemma unpack_params_Module:
  "unpack_params (PModule i c d) = Module_parameters (PModule i c d)"
  by (simp add: Module_parameters_def)

lemma unpack_params_rule: "unpack_params v = params_rule v"
proof (induction v rule: unpack_params.induct)
  case (2 i c d)
  have "concat (map (\<lambda>(k, v). unpack_params v) d) = concat (map (\<lambda>(k, v). params_rule v) d)"
    by (rule arg_cong [where f = concat], rule map_cong) (auto dest: "2.IH")
  then show ?case by (simp add: foldl_append_concat_items)
next
  case (3 d)
  have "concat (map (\<lambda>(k, v). unpack_params v) d) = concat (map (\<lambda>(k, v). params_rule v) d)"
    by (rule arg_cong [where f = concat], rule map_cong) (auto dest: "3.IH")
  then show ?case by (simp add: foldl_append_concat_items)
next
  case (4 xs)
  have "concat (map unpack_params xs) = concat (map params_rule xs)"
    by (rule arg_cong [where f = concat], rule map_cong) (auto dest: "4.IH")
  then show ?case by (simp add: foldl_append_concat)
next
  case (5 xs)
  have "concat (map unpack_params xs) = concat (map params_rule xs)"
    by (rule arg_cong [where f = concat], rule map_cong) (auto dest: "5.IH")
  then show ?case by (simp add: foldl_append_concat)
qed simp_all

text \<open>
  Claim C8. For every Module, whatever the nesting of its attributes, \<open>parameters()\<close>
  returns the flat ordered concatenation the recursion rule gives: the rule applied to
  the Module, which is the concatenation of the rule over the attribute values in
  attribute order; and \<open>_unpack_params\<close> agrees with the rule on every value.
\<close>

theorem parameters_follow_rule:
  "Module_parameters (PModule i c d) = params_rule (PModule i c d)
   \<and> Module_parameters (PModule i c d) = concat (map (\<lambda>(k, v). params_rule v) d)
   \<and> unpack_params v = params_rule v"
  by (simp add: unpack_params_Module [symmetric] unpack_params_rule)

text \<open>
  Claim C10. A freshly constructed BatchNorm1d, and a BatchNorm2d, has exactly the
  parameter list [weight, bias]: the ones and zeros of the constructor. The running
  statistics are plain Tensors and are not in the list, whatever state the layer is in.
\<close>

theorem batchnorm_parameters:
  "Module_parameters (BatchNorm1d_obj i (BatchNorm1d_init d e m))
     = [PParameter (init_ones [d]), PParameter (init_zeros [d])]
   \<and> Module_parameters (BatchNorm2d_obj i (BatchNorm2d_init d e m))
     = [PParameter (init_ones [d]), PParameter (init_zeros [d])]
   \<and> Module_parameters (BatchNorm1d_obj i self) = [PParameter (weight self), PParameter (bias self)]
   \<and> Module_parameters (BatchNorm2d_obj i self) = [PParameter (weight self), PParameter (bias self)]
   \<and> PTensor (running_mean self) \<notin> set (Module_parameters (BatchNorm1d_obj i self))
   \<and> PTensor (running_var self) \<notin> set (Module_parameters (BatchNorm1d_obj i self))"
  by (simp add: Module_parameters_def BatchNorm1d_obj_def BatchNorm2d_obj_def
      BatchNorm1d_dict_def BatchNorm1d_init_def BatchNorm2d_init_def)

section \<open>Training-mode propagation: lemmas\<close>

lemma setattr_idem: "setattr (setattr d k x) k x = setattr d k x"
  by (induction d) auto

lemma map_setattr_leaf:
  "f (PBool b) = PBool b \<Longrightarrow>
   map (\<lambda>(k, v). (k, f v)) (setattr d a (PBool b)) = setattr (map (\<lambda>(k, v). (k, f v)) d) a (PBool b)"
  by (induction d) auto

lemma map_of_setattr: "map_of (setattr d k x) k = Some x"
  by (induction d) auto

lemma map_items_cong:
  "(\<And>k v. (k, v) \<in> set d \<Longrightarrow> f v = g v) \<Longrightarrow>
   map (\<lambda>(k, v). (k, f v)) d = map (\<lambda>(k, v). (k, g v)) d"
  by (rule map_cong) auto

lemma map_items_id:
  "(\<And>k v. (k, v) \<in> set d \<Longrightarrow> f v = v) \<Longrightarrow> map (\<lambda>(k, v). (k, f v)) d = d"
  by (rule map_idI) auto

lemma map_items_comp:
  "map (\<lambda>(k, v). (k, f v)) (map (\<lambda>(k, v). (k, g v)) d) = map (\<lambda>(k, v). (k, f (g v))) d"
  by (induction d) auto

lemma set_training_many_empty: "set_training_many {} b v = v"
  by (induction v) (auto intro!: map_items_id map_idI)

lemma set_training_single: "set_training i b v = set_training_many {i} b v"
proof (induction v)
  case (PModule j c d)
  have eq: "map (\<lambda>(k, v). (k, set_training i b v)) d = map (\<lambda>(k, v). (k, set_training_many {i} b v)) d"
    by (rule map_items_cong) (auto intro: PModule)
  show ?case by (simp add: Let_def eq del: map_eq_conv)
next
  case (PDict d)
  have eq: "map (\<lambda>(k, v). (k, set_training i b v)) d = map (\<lambda>(k, v). (k, set_training_many {i} b v)) d"
    by (rule map_items_cong) (auto intro: PDict)
  show ?case by (simp add: eq del: map_eq_conv)
qed auto

lemma set_training_insert:
  "set_training i b (set_training_many S b v) = set_training_many (insert i S) b v"
proof (induction v)
  case (PModule j c d)
  have eq: "map (\<lambda>(k, v). (k, set_training i b v)) (map (\<lambda>(k, v). (k, set_training_many S b v)) d)
      = map (\<lambda>(k, v). (k, set_training_many (insert i S) b v)) d"
    unfolding map_items_comp by (rule map_items_cong) (auto intro: PModule)
  show ?case
    by (simp add: Let_def map_setattr_leaf setattr_idem eq del: map_map map_eq_conv)
next
  case (PDict d)
  have eq: "map (\<lambda>(k, v). (k, set_training i b v)) (map (\<lambda>(k, v). (k, set_training_many S b v)) d)
      = map (\<lambda>(k, v). (k, set_training_many (insert i S) b v)) d"
    unfolding map_items_comp by (rule map_items_cong) (auto intro: PDict)
  show ?case by (simp add: eq del: map_map map_eq_conv)
qed auto

lemma foldl_set_training:
  "foldl (\<lambda>root m. set_training (obj_id m) b root) (set_training_many S b v) ms
     = set_training_many (S \<union> obj_id ` set ms) b v"
  by (induction ms arbitrary: S) (simp_all add: set_training_insert)

lemma child_modules_items:
  "foldl (\<lambda>modules (k, v). modules @ child_modules v) [] d = concat (map (\<lambda>(k, v). child_modules v) d)"
  by (simp add: foldl_append_concat_items)

lemma child_modules_elems:
  "foldl (\<lambda>modules v. modules @ child_modules v) [] xs = concat (map child_modules xs)"
  by (simp add: foldl_append_concat)

lemma child_modules_Module:
  "child_modules (PModule i c d) = PModule i c d # child_modules (PDict d)"
  by simp

lemma reachable_child_modules: "reachable v m \<Longrightarrow> m \<in> set (child_modules v)"
  by (induction rule: reachable.induct)
    (auto simp: child_modules_items child_modules_elems)

lemma child_modules_reachable: "m \<in> set (child_modules v) \<Longrightarrow> reachable v m"
proof (induction v rule: child_modules.induct)
  case (1 i c d)
  then show ?case
    by (auto simp: child_modules_items intro: reachable.intros)
next
  case (2 d)
  then show ?case by (auto simp: child_modules_items intro: reachable.intros)
next
  case (3 xs)
  then show ?case by (auto simp: child_modules_elems intro: reachable.intros)
next
  case (4 xs)
  then show ?case by (auto simp: child_modules_elems intro: reachable.intros)
qed simp_all

lemma reachable_iff: "reachable v m \<longleftrightarrow> m \<in> set (child_modules v)"
  using reachable_child_modules child_modules_reachable by blast

lemma set_setattr: "set (setattr d k x) \<subseteq> insert (k, x) (set d)"
  by (induction d) (auto split: if_splits)

lemma map_of_map_items: "map_of (map (\<lambda>(k, v). (k, f v)) d) a = map_option f (map_of d a)"
  by (induction d) auto

lemma reachable_flag:
  "m \<in> set (child_modules (set_training_many S b v)) \<Longrightarrow> obj_id m \<in> S
   \<Longrightarrow> getattr m ''training'' = Some (PBool b)"
proof (induction v arbitrary: m)
  case (PModule j c d)
  let ?d' = "map (\<lambda>(k, v). (k, set_training_many S b v)) d"
  let ?D = "if j \<in> S then setattr ?d' ''training'' (PBool b) else ?d'"
  from PModule.prems(1) have "m = PModule j c ?D \<or> (\<exists>(k, v) \<in> set ?D. m \<in> set (child_modules v))"
    by (auto simp: Let_def child_modules_items split: if_splits)
  then show ?case
  proof
    assume "m = PModule j c ?D"
    with PModule.prems(2) show ?thesis
      by (simp add: getattr_def map_of_setattr)
  next
    assume "\<exists>(k, v) \<in> set ?D. m \<in> set (child_modules v)"
    then obtain k v where kv: "(k, v) \<in> set ?D" and m: "m \<in> set (child_modules v)"
      by auto
    from kv have "(k, v) = (''training'', PBool b) \<or> (k, v) \<in> set ?d'"
      using set_setattr [of ?d' "''training''" "PBool b"] by (auto split: if_splits)
    with m obtain v0 where "(k, v0) \<in> set d" and "v = set_training_many S b v0"
      by auto
    with m PModule.prems(2) show ?thesis
      using PModule.IH [of "(k, v0)" v0 m] by auto
  qed
next
  case (PDict d)
  from PDict.prems(1) obtain k v0 where "(k, v0) \<in> set d"
    and "m \<in> set (child_modules (set_training_many S b v0))"
    by (auto simp: child_modules_items)
  with PDict.prems(2) show ?case
    using PDict.IH [of "(k, v0)" v0 m] by auto
next
  case (PList xs)
  then show ?case by (auto simp: child_modules_elems)
next
  case (PTuple xs)
  then show ?case by (auto simp: child_modules_elems)
qed simp_all

lemma child_ids_subset:
  "m \<in> set (child_modules (set_training_many S b v)) \<Longrightarrow> obj_id m \<in> obj_id ` set (child_modules v)"
proof (induction v arbitrary: m)
  case (PModule j c d)
  let ?d' = "map (\<lambda>(k, v). (k, set_training_many S b v)) d"
  let ?D = "if j \<in> S then setattr ?d' ''training'' (PBool b) else ?d'"
  from PModule.prems(1) have "m = PModule j c ?D \<or> (\<exists>(k, v) \<in> set ?D. m \<in> set (child_modules v))"
    by (auto simp: Let_def child_modules_items split: if_splits)
  then show ?case
  proof
    assume "m = PModule j c ?D"
    then have "obj_id m = obj_id (PModule j c d)" by simp
    then show ?thesis by (metis child_modules.simps(1) image_eqI list.set_intros(1))
  next
    assume "\<exists>(k, v) \<in> set ?D. m \<in> set (child_modules v)"
    then obtain k v where kv: "(k, v) \<in> set ?D" and m: "m \<in> set (child_modules v)"
      by auto
    from kv have "(k, v) = (''training'', PBool b) \<or> (k, v) \<in> set ?d'"
      using set_setattr [of ?d' "''training''" "PBool b"] by (auto split: if_splits)
    with m obtain v0 where v0: "(k, v0) \<in> set d" and "v = set_training_many S b v0"
      by auto
    with m have "obj_id m \<in> obj_id ` set (child_modules v0)"
      using PModule.IH [of "(k, v0)" v0 m] by auto
    with v0 show ?thesis by (auto simp: child_modules_items)
  qed
next
  case (PDict d)
  from PDict.prems(1) obtain k v0 where v0: "(k, v0) \<in> set d"
    and "m \<in> set (child_modules (set_training_many S b v0))"
    by (auto simp: child_modules_items)
  then have "obj_id m \<in> obj_id ` set (child_modules v0)"
    using PDict.IH [of "(k, v0)" v0 m] by auto
  with v0 show ?case by (auto simp: child_modules_items)
next
  case (PList xs)
  then show ?case by (fastforce simp: child_modules_elems)
next
  case (PTuple xs)
  then show ?case by (fastforce simp: child_modules_elems)
qed simp_all

lemma ids_elems:
  "map obj_id (concat (map child_modules xs)) = concat (map (\<lambda>v. map obj_id (child_modules v)) xs)"
  by (induction xs) auto

lemma is_flagD: "is_flag x \<Longrightarrow> \<exists>b. x = Some (PBool b)"
  by (cases x rule: is_flag.cases) simp_all

lemma ids_items:
  "map obj_id (concat (map (\<lambda>(k, v). child_modules v) D))
     = concat (map (\<lambda>(k, v). map obj_id (child_modules v)) D)"
  by (induction D) auto

lemma concat_setattr:
  "map_of d k = Some y \<Longrightarrow> g y = [] \<Longrightarrow> g x = [] \<Longrightarrow>
   concat (map (\<lambda>(k, v). g v) (setattr d k x)) = concat (map (\<lambda>(k, v). g v) d)"
  by (induction d) (auto split: if_splits)

lemma flags_are_bools_Module:
  "flags_are_bools (PModule j c d) \<Longrightarrow>
   (\<exists>b0. map_of d ''training'' = Some (PBool b0)) \<and> (\<forall>(k, v) \<in> set d. flags_are_bools v)"
  by (auto simp: flags_are_bools_def getattr_def child_modules_items list_all_iff
      dest: is_flagD)

lemma flags_are_bools_items:
  "flags_are_bools (PDict d) \<Longrightarrow> (k, v) \<in> set d \<Longrightarrow> flags_are_bools v"
  by (auto simp: flags_are_bools_def child_modules_items list_all_iff)

lemma flags_are_bools_elems:
  "flags_are_bools (PList xs) \<Longrightarrow> v \<in> set xs \<Longrightarrow> flags_are_bools v"
  "flags_are_bools (PTuple xs) \<Longrightarrow> v \<in> set xs \<Longrightarrow> flags_are_bools v"
  by (auto simp: flags_are_bools_def child_modules_elems list_all_iff)

lemma child_ids_preserved:
  "flags_are_bools v \<Longrightarrow>
   map obj_id (child_modules (set_training_many S b v)) = map obj_id (child_modules v)"
proof (induction v)
  case (PModule j c d)
  let ?g = "\<lambda>v. map obj_id (child_modules v)"
  let ?d' = "map (\<lambda>(k, v). (k, set_training_many S b v)) d"
  from flags_are_bools_Module [OF PModule.prems] obtain b0
    where flag: "map_of d ''training'' = Some (PBool b0)"
      and sub: "\<And>k v. (k, v) \<in> set d \<Longrightarrow> flags_are_bools v"
    by auto
  have ih: "concat (map (\<lambda>(k, v). ?g v) ?d') = concat (map (\<lambda>(k, v). ?g v) d)"
    unfolding map_map
    by (rule arg_cong [where f = concat], rule map_cong) (auto dest: sub intro: PModule.IH)
  have "map_of ?d' ''training'' = Some (PBool b0)"
    by (simp add: map_of_map_items flag)
  then have "concat (map (\<lambda>(k, v). ?g v) (setattr ?d' ''training'' (PBool b)))
      = concat (map (\<lambda>(k, v). ?g v) ?d')"
    by (rule concat_setattr) simp_all
  with ih have "concat (map (\<lambda>(k, v). ?g v) (if j \<in> S then setattr ?d' ''training'' (PBool b) else ?d'))
      = concat (map (\<lambda>(k, v). ?g v) d)"
    by simp
  then show ?case
    by (simp only: set_training_many.simps Let_def child_modules.simps child_modules_items
        list.map obj_id.simps ids_items)
next
  case (PDict d)
  have "concat (map (\<lambda>(k, v). map obj_id (child_modules v)) (map (\<lambda>(k, v). (k, set_training_many S b v)) d))
      = concat (map (\<lambda>(k, v). map obj_id (child_modules v)) d)"
    unfolding map_map
    by (rule arg_cong [where f = concat], rule map_cong)
      (auto dest: flags_are_bools_items [OF PDict.prems] intro: PDict.IH)
  then show ?case
    by (simp only: set_training_many.simps child_modules.simps child_modules_items ids_items)
next
  case (PList xs)
  have "concat (map (\<lambda>v. map obj_id (child_modules v)) (map (set_training_many S b) xs))
      = concat (map (\<lambda>v. map obj_id (child_modules v)) xs)"
    unfolding map_map
    by (rule arg_cong [where f = concat], rule map_cong)
      (auto dest: flags_are_bools_elems(1) [OF PList.prems] intro: PList.IH)
  then show ?case
    by (simp only: set_training_many.simps child_modules.simps child_modules_elems ids_elems)
next
  case (PTuple xs)
  have "concat (map (\<lambda>v. map obj_id (child_modules v)) (map (set_training_many S b) xs))
      = concat (map (\<lambda>v. map obj_id (child_modules v)) xs)"
    unfolding map_map
    by (rule arg_cong [where f = concat], rule map_cong)
      (auto dest: flags_are_bools_elems(2) [OF PTuple.prems] intro: PTuple.IH)
  then show ?case
    by (simp only: set_training_many.simps child_modules.simps child_modules_elems ids_elems)
qed simp_all

text \<open>What \<open>eval\<close> and \<open>train\<close> compute: one pass over the tree.\<close>

lemma set_mode_fold:
  fixes self0 :: pyval and b :: bool
  defines "self1 \<equiv> set_training (obj_id self0) b self0"
  defines "ms \<equiv> Module_children self1"
  defines "res \<equiv> foldl (\<lambda>r m. set_training (obj_id m) b r) self1 ms"
  shows "res = set_training_many (insert (obj_id self0) (obj_id ` set ms)) b self0"
    and "res = set_training_many (obj_id ` set ms) b self1"
proof -
  have "self1 = set_training_many {obj_id self0} b self0"
    by (simp add: self1_def set_training_single)
  then show "res = set_training_many (insert (obj_id self0) (obj_id ` set ms)) b self0"
    unfolding res_def by (simp add: foldl_set_training)
  show "res = set_training_many (obj_id ` set ms) b self1"
    using foldl_set_training [of b "{}" self1 ms]
    by (simp add: res_def set_training_many_empty)
qed

lemma set_mode_flags:
  fixes b :: bool
  assumes self0: "self0 = PModule i c d"
  defines "self1 \<equiv> set_training (obj_id self0) b self0"
  defines "res \<equiv> foldl (\<lambda>r m. set_training (obj_id m) b r) self1 (Module_children self1)"
  assumes m: "reachable res m"
  shows "getattr m ''training'' = Some (PBool b)"
proof -
  let ?ms = "Module_children self1"
  have r1: "res = set_training_many (insert (obj_id self0) (obj_id ` set ?ms)) b self0"
    and r2: "res = set_training_many (obj_id ` set ?ms) b self1"
    unfolding res_def self1_def by (rule set_mode_fold)+
  from m have mem: "m \<in> set (child_modules res)"
    by (simp add: reachable_iff)
  then have "obj_id m \<in> obj_id ` set (child_modules self1)"
    unfolding r2 by (rule child_ids_subset)
  moreover have "child_modules self1 = self1 # ?ms" and "obj_id self1 = obj_id self0"
    by (simp_all add: self1_def self0 Module_children_def Let_def)
  ultimately have "obj_id m \<in> insert (obj_id self0) (obj_id ` set ?ms)"
    by auto
  with mem show ?thesis
    unfolding r1 by (rule reachable_flag)
qed

lemma set_mode_ids:
  fixes b :: bool
  assumes self0: "self0 = PModule i c d" and ok: "flags_are_bools self0"
  defines "self1 \<equiv> set_training (obj_id self0) b self0"
  defines "res \<equiv> foldl (\<lambda>r m. set_training (obj_id m) b r) self1 (Module_children self1)"
  shows "map obj_id (child_modules res) = map obj_id (child_modules self0)"
proof -
  have "res = set_training_many (insert (obj_id self0) (obj_id ` set (Module_children self1))) b self0"
    unfolding res_def self1_def by (rule set_mode_fold)
  with ok show ?thesis by (simp add: child_ids_preserved)
qed

text \<open>
  Claim C6. After \<open>eval()\<close> on a Module every Module reachable from it (itself
  included, through attributes, dicts, lists and tuples) has \<open>training = False\<close>, and
  after \<open>train()\<close> every one has \<open>training = True\<close>; a Dropout among them then returns
  its input unchanged from \<open>forward\<close>, whatever the random draw. The call keeps the
  Modules of the tree: where every \<open>training\<close> attribute is a bool, as the
  constructors leave it, the identities of the reachable Modules are the same, in the
  same order, before and after.
\<close>

theorem eval_train_propagate:
  "(reachable (Module_eval (PModule i c d)) m \<longrightarrow> getattr m ''training'' = Some (PBool False))
   \<and> (reachable (Module_train (PModule i c d)) m \<longrightarrow> getattr m ''training'' = Some (PBool True))
   \<and> (reachable (Module_eval (PModule i c d)) (Dropout_obj j dr) \<longrightarrow> Dropout_forward dr randb x = Some x)
   \<and> (flags_are_bools (PModule i c d) \<longrightarrow>
        map obj_id (child_modules (Module_eval (PModule i c d))) = map obj_id (child_modules (PModule i c d))
      \<and> map obj_id (child_modules (Module_train (PModule i c d))) = map obj_id (child_modules (PModule i c d)))"
proof -
  have ev: "reachable (Module_eval (PModule i c d)) m' \<Longrightarrow> getattr m' ''training'' = Some (PBool False)" for m'
    unfolding Module_eval_def Let_def by (rule set_mode_flags [OF refl])
  have tr: "reachable (Module_train (PModule i c d)) m' \<Longrightarrow> getattr m' ''training'' = Some (PBool True)" for m'
    unfolding Module_train_def Let_def by (rule set_mode_flags [OF refl])
  have dr: "Dropout_forward dr randb x = Some x" if "reachable (Module_eval (PModule i c d)) (Dropout_obj j dr)"
    using ev [OF that] by (simp add: getattr_def Dropout_obj_def Dropout_forward_def)
  have ids: "map obj_id (child_modules (Module_eval (PModule i c d))) = map obj_id (child_modules (PModule i c d))"
    "map obj_id (child_modules (Module_train (PModule i c d))) = map obj_id (child_modules (PModule i c d))"
    if "flags_are_bools (PModule i c d)"
    unfolding Module_eval_def Module_train_def Let_def
    by (rule set_mode_ids [OF refl that])+
  from ev tr dr ids show ?thesis by blast
qed

theorem eval_train_propagate_witness:
  "reachable (Module_eval example_model) (Dropout_obj 5 \<lparr>training = False, p = 0\<rparr>)
   \<and> getattr (Dropout_obj 5 \<lparr>training = False, p = 0\<rparr>) ''training'' = Some (PBool False)
   \<and> Dropout_forward \<lparr>training = False, p = 0\<rparr> (\<lambda>s q. init_zeros s) (init_ones [2]) = Some (init_ones [2])
   \<and> flags_are_bools example_model
   \<and> map obj_id (child_modules (Module_eval example_model)) = [0, 1, 2, 3, 4, 5]
   \<and> reachable (Module_train (Module_eval example_model)) (Dropout_obj 5 \<lparr>training = True, p = 0\<rparr>)
   \<and> getattr (Dropout_obj 5 \<lparr>training = True, p = 0\<rparr>) ''training'' = Some (PBool True)
   \<and> Module_train (Module_eval example_model) = example_model"
proof -
  let ?off = "\<lparr>training = False, p = 0\<rparr> :: Dropout" and ?on = "\<lparr>training = True, p = 0\<rparr> :: Dropout"
  have ev: "Module_eval example_model =
     PModule 0 ''Sequential''
       [(''training'', PBool False),
        (''modules'', PTuple
           [Dropout_obj 1 \<lparr>training = False, p = 1/2\<rparr>,
            PModule 2 ''Residual'' [(''training'', PBool False), (''fn'', Dropout_obj 3 \<lparr>training = False, p = 1/4\<rparr>)],
            PModule 4 ''Holder'' [(''training'', PBool False),
              (''table'', PDict [(''a'', PList [Dropout_obj 5 \<lparr>training = False, p = 0\<rparr>])])]])]"
    by (simp add: example_model_def Module_eval_def Module_children_def Dropout_obj_def
        Dropout_init_def)
  have tr: "Module_train (Module_eval example_model) = example_model"
    unfolding ev
    by (simp add: example_model_def Module_train_def Module_children_def Dropout_obj_def
        Dropout_init_def)
  have r: "reachable (Module_eval example_model) (Dropout_obj 5 ?off)"
    unfolding ev by (simp add: reachable_iff Dropout_obj_def)
  have rt: "reachable (Module_train (Module_eval example_model)) (Dropout_obj 5 ?on)"
    unfolding tr by (simp add: reachable_iff example_model_def Dropout_obj_def Dropout_init_def)
  have f: "flags_are_bools example_model"
    by (simp add: flags_are_bools_def example_model_def getattr_def Dropout_obj_def Dropout_init_def)
  have ids: "map obj_id (child_modules example_model) = [0, 1, 2, 3, 4, 5]"
    by (simp add: example_model_def Dropout_obj_def)
  have m: "PModule 0 ''Sequential'' (obj_dict example_model) = example_model"
    by (simp add: example_model_def)
  have m': "PModule 0 ''Sequential'' (obj_dict (Module_eval example_model)) = Module_eval example_model"
    by (simp add: ev)
  note E = eval_train_propagate [of 0 "''Sequential''" "obj_dict example_model"
      "Dropout_obj 5 ?off" 5 ?off "\<lambda>s q. init_zeros s" "init_ones [2]", unfolded m]
  note T = eval_train_propagate [of 0 "''Sequential''" "obj_dict (Module_eval example_model)"
      "Dropout_obj 5 ?on", unfolded m']
  from E r f have e: "getattr (Dropout_obj 5 ?off) ''training'' = Some (PBool False)"
    "Dropout_forward ?off (\<lambda>s q. init_zeros s) (init_ones [2]) = Some (init_ones [2])"
    "map obj_id (child_modules (Module_eval example_model)) = map obj_id (child_modules example_model)"
    by blast+
  from T rt have t: "getattr (Dropout_obj 5 ?on) ''training'' = Some (PBool True)"
    by blast
  from r e f ids rt t tr show ?thesis by simp
qed

text \<open>
  Claim C9. \<open>Transformer.forward(x, h)\<close> does not depend on its second argument: for
  every Transformer and every input, any two values of \<open>h\<close> (the default \<open>None\<close>
  included) give the same pair of tensors, or the same failure.
\<close>

theorem Transformer_forward_ignores_h:
  "Transformer_forward self x h = Transformer_forward self x h'
   \<and> Transformer_forward self x h = Transformer_forward self x PNone"
  by (simp add: Transformer_forward_def)

section \<open>Tensors: indices and entries\<close>

lemma concat_blocks:
  "concat (map (\<lambda>i. map (\<lambda>k. i * P + k) [0..<P]) [0..<n]) = [0..<n * P]"
proof (induction n)
  case 0
  then show ?case by simp
next
  case (Suc n)
  have "map (\<lambda>k. n * P + k) [0..<P] = [n * P..<n * P + P]"
    using map_add_upt [of "n * P" P] by (simp add: add.commute)
  moreover have "[0..<n * P + P] = [0..<n * P] @ [n * P..<n * P + P]"
    by (rule upt_add_eq_append) simp
  ultimately show ?case
    using Suc by (simp add: add.commute)
qed

lemma indices_Nil: "indices [] = [[]]"
  by (simp add: indices_def)

lemma indices_Cons:
  "indices (n # s) = concat (map (\<lambda>i. map ((#) i) (indices s)) [0..<n])"
  by (simp add: indices_def)

lemma map_ravel_indices: "map (ravel s) (indices s) = [0..<prod_list s]"
proof (induction s)
  case Nil
  then show ?case by (simp add: indices_Nil)
next
  case (Cons n s)
  have "map (ravel (n # s)) (indices (n # s))
      = concat (map (\<lambda>i. map (\<lambda>k. i * prod_list s + k) (map (ravel s) (indices s))) [0..<n])"
    by (simp add: indices_Cons map_concat comp_def)
  then show ?case
    by (simp add: Cons concat_blocks)
qed

lemma length_indices: "length (indices s) = prod_list s"
  using arg_cong [OF map_ravel_indices, of length s] by simp

lemma in_indices: "idx \<in> set (indices s) \<longleftrightarrow> valid_index s idx"
proof (induction s arbitrary: idx)
  case Nil
  then show ?case by (simp add: indices_Nil valid_index_def)
next
  case (Cons n s)
  show ?case
  proof (cases idx)
    case Nil
    then show ?thesis by (auto simp: indices_Cons valid_index_def)
  next
    case (Cons a rest)
    have "a # rest \<in> set (indices (n # s)) \<longleftrightarrow> a < n \<and> rest \<in> set (indices s)"
      by (auto simp: indices_Cons)
    then show ?thesis
      by (simp add: Cons Cons.IH valid_index_def)
  qed
qed

lemma ravel_less: "valid_index s idx \<Longrightarrow> ravel s idx < prod_list s"
proof -
  assume "valid_index s idx"
  then have "idx \<in> set (indices s)" by (simp add: in_indices)
  then have "ravel s idx \<in> set (map (ravel s) (indices s))" by simp
  then show ?thesis by (simp add: map_ravel_indices)
qed

lemma nth_indices_ravel: "valid_index s idx \<Longrightarrow> indices s ! ravel s idx = idx"
proof -
  assume v: "valid_index s idx"
  then obtain k where k: "k < length (indices s)" and eq: "indices s ! k = idx"
    by (auto simp: in_indices [symmetric] in_set_conv_nth)
  have "map (ravel s) (indices s) ! k = [0..<prod_list s] ! k"
    by (simp add: map_ravel_indices)
  with k have "ravel s idx = k"
    by (simp add: eq length_indices)
  with eq show ?thesis by simp
qed

lemma wf_tabulate: "wf_tensor (tabulate s f)"
  by (simp add: wf_tensor_def tabulate_def length_indices)

lemma shape_tabulate: "shape (tabulate s f) = s"
  by (simp add: tabulate_def)

lemma entry_tabulate: "valid_index s idx \<Longrightarrow> entry (tabulate s f) idx = f idx"
  by (simp add: entry_def tabulate_def ravel_less length_indices nth_indices_ravel)

lemma tabulate_cong:
  "(\<And>idx. valid_index s idx \<Longrightarrow> f idx = g idx) \<Longrightarrow> tabulate s f = tabulate s g"
  by (simp add: tabulate_def in_indices)

lemma tabulate_entry: "wf_tensor t \<Longrightarrow> tabulate (shape t) (entry t) = t"
proof -
  assume wf: "wf_tensor t"
  have "map (entry t) (indices (shape t)) = map (nth (data t)) (map (ravel (shape t)) (indices (shape t)))"
    by (simp add: entry_def comp_def)
  also have "\<dots> = data t"
  proof -
    from wf have "prod_list (shape t) = length (data t)" by (simp add: wf_tensor_def)
    then show ?thesis by (simp add: map_ravel_indices map_nth)
  qed
  finally show ?thesis by (simp add: tabulate_def)
qed

lemma tensor_eqI:
  assumes "wf_tensor a" "wf_tensor b" "shape a = shape b"
    and "\<And>idx. valid_index (shape a) idx \<Longrightarrow> entry a idx = entry b idx"
  shows "a = b"
proof -
  have "a = tabulate (shape a) (entry a)"
    by (simp add: tabulate_entry assms(1))
  also have "\<dots> = tabulate (shape a) (entry b)"
    by (rule tabulate_cong) (rule assms(4))
  also have "\<dots> = tabulate (shape b) (entry b)"
    by (simp only: assms(3))
  also have "\<dots> = b"
    by (simp add: tabulate_entry assms(2))
  finally show ?thesis .
qed

lemma entry_map_tensor:
  "wf_tensor t \<Longrightarrow> valid_index (shape t) idx \<Longrightarrow> entry (map_tensor f t) idx = f (entry t idx)"
  by (simp add: entry_def map_tensor_def wf_tensor_def ravel_less)

lemma wf_map_tensor: "wf_tensor (map_tensor f t) = wf_tensor t"
  by (simp add: wf_tensor_def map_tensor_def)

lemma shape_map_tensor: "shape (map_tensor f t) = shape t"
  by (simp add: map_tensor_def)

lemma ewise_Some:
  "shape a = shape b \<Longrightarrow> ewise f a b = Some \<lparr>shape = shape a, data = map2 f (data a) (data b)\<rparr>"
  by (simp add: ewise_def)

lemma entry_ewise:
  "wf_tensor a \<Longrightarrow> wf_tensor b \<Longrightarrow> ewise f a b = Some r \<Longrightarrow> valid_index (shape a) idx \<Longrightarrow>
   entry r idx = f (entry a idx) (entry b idx)"
  by (auto simp: ewise_def entry_def wf_tensor_def ravel_less split: if_splits)

lemma wf_ewise: "wf_tensor a \<Longrightarrow> wf_tensor b \<Longrightarrow> ewise f a b = Some r \<Longrightarrow> wf_tensor r \<and> shape r = shape a"
  by (auto simp: ewise_def wf_tensor_def split: if_splits)

section \<open>BatchNorm1d: lemmas\<close>

lemma broadcast_to_Some:
  "list_all2 (\<lambda>n m. n = m \<or> n = 1) (shape t) s \<Longrightarrow>
   broadcast_to t s = Some (tabulate s (\<lambda>idx. entry t (broadcast_index (shape t) idx)))"
  by (simp add: broadcast_to_def)

lemma broadcast_to_props:
  assumes "broadcast_to t s = Some r"
  shows "wf_tensor r" and "shape r = s"
    and "\<And>idx. valid_index s idx \<Longrightarrow> entry r idx = entry t (broadcast_index (shape t) idx)"
  using assms by (auto simp: broadcast_to_def wf_tabulate shape_tabulate entry_tabulate split: if_splits)

lemma summation_props:
  assumes "summation t ax = Some r"
  shows "wf_tensor r" and "shape r = drop_axis ax (shape t)"
    and "\<And>idx. valid_index (drop_axis ax (shape t)) idx \<Longrightarrow>
           entry r idx = sum_list (map (\<lambda>k. entry t (put_axis ax k idx)) [0..<shape t ! ax])"
  using assms by (auto simp: summation_def wf_tabulate shape_tabulate entry_tabulate split: if_splits)


text \<open>The pattern \<open>t.reshape((1, d)).broadcast_to((b, d))\<close> on a vector of length d.\<close>

lemma row_broadcast:
  assumes "wf_tensor t" and "shape t = [d]"
  obtains tb where "do { t1 \<leftarrow> reshape t [1, d]; broadcast_to t1 [b, d] } = Some tb"
    and "wf_tensor tb" and "shape tb = [b, d]"
    and "\<And>i j. i < b \<Longrightarrow> j < d \<Longrightarrow> entry tb [i, j] = entry t [j]"
proof -
  have r: "reshape t [1, d] = Some (t\<lparr>shape := [1, d]\<rparr>)"
    by (simp add: reshape_def assms)
  let ?t1 = "t\<lparr>shape := [1, d]\<rparr>"
  have b: "broadcast_to ?t1 [b, d] = Some (tabulate [b, d] (\<lambda>idx. entry ?t1 (broadcast_index [1, d] idx)))"
    by (simp add: broadcast_to_def)
  let ?tb = "tabulate [b, d] (\<lambda>idx. entry ?t1 (broadcast_index [1, d] idx))"
  have e: "entry ?tb [i, j] = entry t [j]" if "i < b" "j < d" for i j
  proof -
    have "valid_index [b, d] [i, j]" using that by (simp add: valid_index_def)
    then have "entry ?tb [i, j] = entry ?t1 (broadcast_index [1, d] [i, j])"
      by (rule entry_tabulate)
    also have "broadcast_index [1, d] [i, j] = [0, j]"
      using that by (auto simp: broadcast_index_def)
    also have "entry ?t1 [0, j] = entry t [j]"
      by (simp add: entry_def assms)
    finally show ?thesis .
  qed
  have "do { t1 \<leftarrow> reshape t [1, d]; broadcast_to t1 [b, d] } = Some ?tb"
    by (simp only: r Option.bind.simps b)
  then show thesis
    using wf_tabulate shape_tabulate e by (rule that)
qed

lemma map_tensor_props:
  "wf_tensor (map_tensor f t) = wf_tensor t" "shape (map_tensor f t) = shape t"
  by (simp_all add: wf_tensor_def map_tensor_def)

lemma ewise_props:
  assumes "wf_tensor a" "wf_tensor b" "shape a = shape b"
  obtains r where "ewise f a b = Some r" "wf_tensor r" "shape r = shape a"
    "\<And>idx. valid_index (shape a) idx \<Longrightarrow> entry r idx = f (entry a idx) (entry b idx)"
proof -
  let ?r = "\<lparr>shape = shape a, data = map2 f (data a) (data b)\<rparr>"
  have 1: "ewise f a b = Some ?r" by (simp add: ewise_def assms)
  have 2: "wf_tensor ?r" "shape ?r = shape a"
    using assms by (simp_all add: wf_tensor_def)
  have 3: "entry ?r idx = f (entry a idx) (entry b idx)" if "valid_index (shape a) idx" for idx
    using assms ravel_less [OF that] by (simp add: entry_def wf_tensor_def)
  from 1 2 3 show thesis by (rule that)
qed

lemma valid2: "valid_index [b, d] [i, j] \<longleftrightarrow> i < b \<and> j < d"
  by (simp add: valid_index_def)

lemma valid1: "valid_index [d] [j] \<longleftrightarrow> j < d"
  by (simp add: valid_index_def)

lemma BatchNorm1d_output_entry:
  assumes x: "wf_tensor x" "shape x = [b, d]" and d: "dim self = d"
    and avg: "wf_tensor avg" "shape avg = [d]"
    and var: "wf_tensor var" "shape var = [d]"
    and w: "wf_tensor (weight self)" "shape (weight self) = [d]"
    and bi: "wf_tensor (bias self)" "shape (bias self) = [d]"
  obtains y where "BatchNorm1d_output self x avg var = Some y"
    and "wf_tensor y" and "shape y = [b, d]"
    and "\<And>i j. i < b \<Longrightarrow> j < d \<Longrightarrow>
          entry y [i, j] = (entry x [i, j] - entry avg [j]) / (entry var [j] + eps self) powr (1/2)
                             * entry (weight self) [j] + entry (bias self) [j]"
proof -
  from row_broadcast [OF avg, of b] obtain ab where
    ab: "do { t1 \<leftarrow> reshape avg [1, d]; broadcast_to t1 [b, d] } = Some ab"
      "wf_tensor ab" "shape ab = [b, d]" "\<And>i j. i < b \<Longrightarrow> j < d \<Longrightarrow> entry ab [i, j] = entry avg [j]"
    by blast
  from row_broadcast [OF var, of b] obtain vb where
    vb: "do { t1 \<leftarrow> reshape var [1, d]; broadcast_to t1 [b, d] } = Some vb"
      "wf_tensor vb" "shape vb = [b, d]" "\<And>i j. i < b \<Longrightarrow> j < d \<Longrightarrow> entry vb [i, j] = entry var [j]"
    by blast
  from row_broadcast [OF w, of b] obtain wb where
    wb: "do { t1 \<leftarrow> reshape (weight self) [1, d]; broadcast_to t1 [b, d] } = Some wb"
      "wf_tensor wb" "shape wb = [b, d]" "\<And>i j. i < b \<Longrightarrow> j < d \<Longrightarrow> entry wb [i, j] = entry (weight self) [j]"
    by blast
  from row_broadcast [OF bi, of b] obtain bb where
    bb: "do { t1 \<leftarrow> reshape (bias self) [1, d]; broadcast_to t1 [b, d] } = Some bb"
      "wf_tensor bb" "shape bb = [b, d]" "\<And>i j. i < b \<Longrightarrow> j < d \<Longrightarrow> entry bb [i, j] = entry (bias self) [j]"
    by blast
  from ewise_props [of x ab "\<lambda>u v. u - v"] x ab obtain c where
    c: "ewise_sub x ab = Some c" "wf_tensor c" "shape c = [b, d]"
      "\<And>idx. valid_index [b, d] idx \<Longrightarrow> entry c idx = entry x idx - entry ab idx"
    unfolding ewise_sub_def by auto
  let ?sd = "power_float_scalar (add_scalar vb (eps self)) (1/2)"
  have sd: "wf_tensor ?sd" "shape ?sd = [b, d]"
    "\<And>idx. valid_index [b, d] idx \<Longrightarrow> entry ?sd idx = (entry vb idx + eps self) powr (1/2)"
    using vb by (simp_all add: power_float_scalar_def add_scalar_def map_tensor_props entry_map_tensor)
  from ewise_props [of c ?sd "\<lambda>u v. u / v"] c sd obtain q where
    q: "ewise_div c ?sd = Some q" "wf_tensor q" "shape q = [b, d]"
      "\<And>idx. valid_index [b, d] idx \<Longrightarrow> entry q idx = entry c idx / entry ?sd idx"
    unfolding ewise_div_def by auto
  from ewise_props [of q wb "\<lambda>u v. u * v"] q wb obtain y0 where
    y0: "ewise_mul q wb = Some y0" "wf_tensor y0" "shape y0 = [b, d]"
      "\<And>idx. valid_index [b, d] idx \<Longrightarrow> entry y0 idx = entry q idx * entry wb idx"
    unfolding ewise_mul_def by auto
  from ewise_props [of y0 bb "\<lambda>u v. u + v"] y0 bb obtain y where
    y: "ewise_add y0 bb = Some y" "wf_tensor y" "shape y = [b, d]"
      "\<And>idx. valid_index [b, d] idx \<Longrightarrow> entry y idx = entry y0 idx + entry bb idx"
    unfolding ewise_add_def by auto
  have out: "BatchNorm1d_output self x avg var = Some y"
  proof -
    have "BatchNorm1d_output self x avg var =
      do { ab' \<leftarrow> do { t1 \<leftarrow> reshape avg [1, d]; broadcast_to t1 [b, d] };
           c' \<leftarrow> ewise_sub x ab';
           vb' \<leftarrow> do { t1 \<leftarrow> reshape var [1, d]; broadcast_to t1 [b, d] };
           q' \<leftarrow> ewise_div c' (power_float_scalar (add_scalar vb' (eps self)) (1/2));
           wb' \<leftarrow> do { t1 \<leftarrow> reshape (weight self) [1, d]; broadcast_to t1 [b, d] };
           y' \<leftarrow> ewise_mul q' wb';
           bb' \<leftarrow> do { t1 \<leftarrow> reshape (bias self) [1, d]; broadcast_to t1 [b, d] };
           ewise_add y' bb' }"
      by (simp add: BatchNorm1d_output_def d x(2) del: One_nat_def)
    also have "\<dots> = Some y"
      by (simp only: ab(1) vb(1) wb(1) bb(1) c(1) q(1) y0(1) y(1) Option.bind.simps)
    finally show ?thesis .
  qed
  have "entry y [i, j] = (entry x [i, j] - entry avg [j]) / (entry var [j] + eps self) powr (1/2)
                             * entry (weight self) [j] + entry (bias self) [j]"
    if "i < b" "j < d" for i j
  proof -
    have v: "valid_index [b, d] [i, j]" using that by (simp add: valid2)
    show ?thesis
      using that by (simp add: y(4) [OF v] y0(4) [OF v] q(4) [OF v] sd(3) [OF v] c(4) [OF v]
          ab(4) vb(4) wb(4) bb(4))
  qed
  with out y(2,3) show thesis by (rule that)
qed

lemma wf_init_constant: "wf_tensor (init_constant s c)" "shape (init_constant s c) = s"
  by (simp_all add: wf_tensor_def init_constant_def)

lemma BatchNorm1d_inv_init: "BatchNorm1d_inv (BatchNorm1d_init d e m)"
  by (simp add: BatchNorm1d_inv_def BatchNorm1d_init_def init_ones_def init_zeros_def wf_init_constant)

lemma put_axis_0: "put_axis 0 k idx = k # idx"
  by (simp add: put_axis_def)

lemma drop_axis_0: "drop_axis 0 (n # s) = s"
  by (simp add: drop_axis_def)

lemma summation_0:
  assumes "shape t = [b, d]"
  obtains s where "summation t 0 = Some s" "wf_tensor s" "shape s = [d]"
    "\<And>j. j < d \<Longrightarrow> entry s [j] = sum_list (map (\<lambda>i. entry t [i, j]) [0..<b])"
proof -
  let ?s = "tabulate [d] (\<lambda>idx. sum_list (map (\<lambda>k. entry t (k # idx)) [0..<b]))"
  have 1: "summation t 0 = Some ?s"
    by (simp add: summation_def assms drop_axis_0 put_axis_0)
  have 2: "entry ?s [j] = sum_list (map (\<lambda>i. entry t [i, j]) [0..<b])" if "j < d" for j
    using that by (simp add: entry_tabulate valid1)
  from 1 wf_tabulate shape_tabulate 2 show thesis by (rule that)
qed

lemma BatchNorm1d_batch_stats_entry:
  assumes x: "wf_tensor x" "shape x = [b, d]" and d: "dim self = d"
  obtains avg var where "BatchNorm1d_batch_stats self x b = Some (avg, var)"
    and "wf_tensor avg" "shape avg = [d]" "\<And>j. j < d \<Longrightarrow> entry avg [j] = batch_mean x j"
    and "wf_tensor var" "shape var = [d]" "\<And>j. j < d \<Longrightarrow> entry var [j] = batch_var x j"
proof -
  from summation_0 [OF x(2)] obtain s where
    s: "summation x 0 = Some s" "wf_tensor s" "shape s = [d]"
      "\<And>j. j < d \<Longrightarrow> entry s [j] = sum_list (map (\<lambda>i. entry x [i, j]) [0..<b])"
    by blast
  let ?avg = "div_scalar s (real b)"
  have avg: "wf_tensor ?avg" "shape ?avg = [d]" "\<And>j. j < d \<Longrightarrow> entry ?avg [j] = batch_mean x j"
    using s by (simp_all add: div_scalar_def map_tensor_props entry_map_tensor valid1 batch_mean_def x(2))
  from row_broadcast [OF avg(1,2), of b] obtain ab where
    ab: "do { t1 \<leftarrow> reshape ?avg [1, d]; broadcast_to t1 [b, d] } = Some ab"
      "wf_tensor ab" "shape ab = [b, d]" "\<And>i j. i < b \<Longrightarrow> j < d \<Longrightarrow> entry ab [i, j] = entry ?avg [j]"
    by blast
  from ewise_props [of x ab "\<lambda>u v. u - v"] x ab obtain c where
    c: "ewise_sub x ab = Some c" "wf_tensor c" "shape c = [b, d]"
      "\<And>idx. valid_index [b, d] idx \<Longrightarrow> entry c idx = entry x idx - entry ab idx"
    unfolding ewise_sub_def by auto
  let ?c2 = "power_int_scalar c 2"
  have c2: "wf_tensor ?c2" "shape ?c2 = [b, d]"
    "\<And>idx. valid_index [b, d] idx \<Longrightarrow> entry ?c2 idx = (entry c idx)\<^sup>2"
    using c by (simp_all add: power_int_scalar_def map_tensor_props entry_map_tensor)
  from summation_0 [OF c2(2)] obtain s2 where
    s2: "summation ?c2 0 = Some s2" "wf_tensor s2" "shape s2 = [d]"
      "\<And>j. j < d \<Longrightarrow> entry s2 [j] = sum_list (map (\<lambda>i. entry ?c2 [i, j]) [0..<b])"
    by blast
  let ?var = "div_scalar s2 (real b)"
  have sq: "sum_list (map (\<lambda>i. entry ?c2 [i, j]) [0..<b])
      = sum_list (map (\<lambda>i. (entry x [i, j] - batch_mean x j)\<^sup>2) [0..<b])" if "j < d" for j
    by (rule arg_cong [where f = sum_list], rule map_cong)
      (simp_all add: that c2(3) c(4) valid2 ab(4) avg(3))
  have var: "wf_tensor ?var" "shape ?var = [d]" "\<And>j. j < d \<Longrightarrow> entry ?var [j] = batch_var x j"
    using s2(2,3) by (simp_all add: div_scalar_def map_tensor_props entry_map_tensor valid1 batch_var_def
        x(2) s2(4) sq)
  have "BatchNorm1d_batch_stats self x b =
      do { s' \<leftarrow> summation x 0;
           ab' \<leftarrow> do { t1 \<leftarrow> reshape (div_scalar s' (real b)) [1, d]; broadcast_to t1 [b, d] };
           c' \<leftarrow> ewise_sub x ab';
           s2' \<leftarrow> summation (power_int_scalar c' 2) 0;
           Some (div_scalar s' (real b), div_scalar s2' (real b)) }"
    by (simp add: BatchNorm1d_batch_stats_def d x(2) Let_def del: One_nat_def)
  also have "\<dots> = Some (?avg, ?var)"
    by (simp only: s(1) ab(1) c(1) s2(1) Option.bind.simps)
  finally show thesis
    using avg var by (rule that)
qed

lemma BatchNorm1d_forward_training:
  assumes tr: "training self" and x: "wf_tensor x" "shape x = [b, dim self]"
    and inv: "BatchNorm1d_inv self"
  obtains y rm rv where
    "BatchNorm1d_forward self x = (Some y, self\<lparr>running_mean := rm, running_var := rv\<rparr>)"
    and "wf_tensor y" "shape y = [b, dim self]"
    and "\<And>i j. i < b \<Longrightarrow> j < dim self \<Longrightarrow>
          entry y [i, j] = (entry x [i, j] - batch_mean x j) / (batch_var x j + eps self) powr (1/2)
                             * entry (weight self) [j] + entry (bias self) [j]"
    and "wf_tensor rm" "shape rm = [dim self]"
    and "\<And>j. j < dim self \<Longrightarrow>
          entry rm [j] = entry (running_mean self) [j] * (1 - momentum self) + batch_mean x j * momentum self"
    and "wf_tensor rv" "shape rv = [dim self]"
    and "\<And>j. j < dim self \<Longrightarrow>
          entry rv [j] = entry (running_var self) [j] * (1 - momentum self) + batch_var x j * momentum self"
proof -
  let ?d = "dim self"
  from inv have w: "wf_tensor (weight self)" "shape (weight self) = [?d]"
    and bi: "wf_tensor (bias self)" "shape (bias self) = [?d]"
    and m0: "wf_tensor (running_mean self)" "shape (running_mean self) = [?d]"
    and v0: "wf_tensor (running_var self)" "shape (running_var self) = [?d]"
    by (simp_all add: BatchNorm1d_inv_def)
  from BatchNorm1d_batch_stats_entry [OF x refl] obtain avg var where
    st: "BatchNorm1d_batch_stats self x b = Some (avg, var)"
    and avg: "wf_tensor avg" "shape avg = [?d]" "\<And>j. j < ?d \<Longrightarrow> entry avg [j] = batch_mean x j"
    and var: "wf_tensor var" "shape var = [?d]" "\<And>j. j < ?d \<Longrightarrow> entry var [j] = batch_var x j"
    by blast
  let ?m1 = "mul_scalar (running_mean self) (1 - momentum self)" and ?m2 = "mul_scalar avg (momentum self)"
  have m12: "wf_tensor ?m1" "wf_tensor ?m2" "shape ?m1 = [?d]" "shape ?m2 = [?d]"
    using m0 avg by (simp_all add: mul_scalar_def map_tensor_props)
  from ewise_props [of ?m1 ?m2 "\<lambda>u v. u + v"] m12 obtain rm where
    rm: "ewise_add ?m1 ?m2 = Some rm" "wf_tensor rm" "shape rm = [?d]"
      "\<And>idx. valid_index [?d] idx \<Longrightarrow> entry rm idx = entry ?m1 idx + entry ?m2 idx"
    unfolding ewise_add_def by auto
  let ?v1 = "mul_scalar (running_var self) (1 - momentum self)" and ?v2 = "mul_scalar var (momentum self)"
  have v12: "wf_tensor ?v1" "wf_tensor ?v2" "shape ?v1 = [?d]" "shape ?v2 = [?d]"
    using v0 var by (simp_all add: mul_scalar_def map_tensor_props)
  from ewise_props [of ?v1 ?v2 "\<lambda>u v. u + v"] v12 obtain rv where
    rv: "ewise_add ?v1 ?v2 = Some rv" "wf_tensor rv" "shape rv = [?d]"
      "\<And>idx. valid_index [?d] idx \<Longrightarrow> entry rv idx = entry ?v1 idx + entry ?v2 idx"
    unfolding ewise_add_def by auto
  let ?self2 = "self\<lparr>running_mean := rm, running_var := rv\<rparr>"
  from BatchNorm1d_output_entry [of x b ?d ?self2 avg var] x avg var w bi obtain y where
    y: "BatchNorm1d_output ?self2 x avg var = Some y" "wf_tensor y" "shape y = [b, ?d]"
      "\<And>i j. i < b \<Longrightarrow> j < ?d \<Longrightarrow>
          entry y [i, j] = (entry x [i, j] - entry avg [j]) / (entry var [j] + eps self) powr (1/2)
                             * entry (weight self) [j] + entry (bias self) [j]"
    by auto
  have fw: "BatchNorm1d_forward self x = (Some y, ?self2)"
    by (simp add: BatchNorm1d_forward_def x(2) tr st rm(1) rv(1) y(1) Let_def)
  have rme: "entry rm [j] = entry (running_mean self) [j] * (1 - momentum self) + batch_mean x j * momentum self"
    if "j < ?d" for j
    using that m0 avg by (simp add: rm(4) valid1 mul_scalar_def entry_map_tensor)
  have rve: "entry rv [j] = entry (running_var self) [j] * (1 - momentum self) + batch_var x j * momentum self"
    if "j < ?d" for j
    using that v0 var by (simp add: rv(4) valid1 mul_scalar_def entry_map_tensor)
  show thesis
    by (rule that [OF fw y(2,3) _ rm(2,3) rme rv(2,3) rve]) (simp_all add: y(4) avg(3) var(3))
qed

lemma batch_var_nonneg: "0 \<le> batch_var x j"
  unfolding batch_var_def by (intro divide_nonneg_nonneg sum_list_nonneg) auto

lemma BatchNorm1d_batch_stats_shape:
  assumes "BatchNorm1d_batch_stats self x batch = Some r" and "shape x = batch # rest"
  shows "rest = [dim self]"
proof -
  from assms obtain s a1 ab where s: "summation x 0 = Some s"
    and a1: "reshape (div_scalar s (real batch)) [1, dim self] = Some a1"
    and ab: "broadcast_to a1 (shape x) = Some ab"
    by (auto simp: BatchNorm1d_batch_stats_def Let_def split: bind_splits)
  from s have "shape s = rest"
    using summation_props(2) [OF s] by (simp add: assms(2) drop_axis_0)
  with a1 have p: "prod_list rest = dim self" and "shape a1 = [1, dim self]"
    by (auto simp: reshape_def div_scalar_def map_tensor_props split: if_splits)
  with ab have "list_all2 (\<lambda>n m. n = m \<or> n = 1) [1, dim self] (batch # rest)"
    by (auto simp: broadcast_to_def assms(2) split: if_splits)
  then obtain r where "rest = [r]"
    by (auto simp: list_all2_Cons1)
  with p show ?thesis by simp
qed

lemma BatchNorm1d_forward_mismatch:
  assumes "training self" and "shape x = [b, d]" and "d \<noteq> dim self"
  shows "BatchNorm1d_forward self x = (None, self)"
proof (cases "BatchNorm1d_batch_stats self x b")
  case None
  with assms show ?thesis by (simp add: BatchNorm1d_forward_def)
next
  case (Some r)
  from BatchNorm1d_batch_stats_shape [OF Some assms(2)] assms(3) show ?thesis by simp
qed

text \<open>
  Claim C3. A BatchNorm1d in training mode, on a batch \<open>x\<close> of shape (batch, dim) with
  at least one row and with \<open>eps > 0\<close>, returns at (i, j) the entry of \<open>x\<close> normalised
  by the mean and variance of the current batch (not by the running statistics), with
  \<open>eps\<close> added to the variance under the square root, times \<open>weight[j]\<close> plus
  \<open>bias[j]\<close>; and the call leaves \<open>running_mean = momentum * batch_mean +
  (1 - momentum) * previous running_mean\<close>, and likewise \<open>running_var\<close>.
\<close>

theorem BatchNorm1d_training_step:
  assumes "training self" and "wf_tensor x" and "shape x = [b, dim self]" and "0 < b"
    and "0 < eps self" and "BatchNorm1d_inv self"
  shows "\<exists>y rm rv.
      BatchNorm1d_forward self x = (Some y, self\<lparr>running_mean := rm, running_var := rv\<rparr>)
      \<and> wf_tensor y \<and> shape y = [b, dim self]
      \<and> (\<forall>i<b. \<forall>j<dim self.
            entry y [i, j] = (entry x [i, j] - batch_mean x j) / sqrt (batch_var x j + eps self)
                               * entry (weight self) [j] + entry (bias self) [j])
      \<and> wf_tensor rm \<and> shape rm = [dim self]
      \<and> (\<forall>j<dim self. entry rm [j]
            = momentum self * batch_mean x j + (1 - momentum self) * entry (running_mean self) [j])
      \<and> wf_tensor rv \<and> shape rv = [dim self]
      \<and> (\<forall>j<dim self. entry rv [j]
            = momentum self * batch_var x j + (1 - momentum self) * entry (running_var self) [j])"
proof (rule BatchNorm1d_forward_training [OF assms(1-3) assms(6)], goal_cases)
  case (1 y rm rv)
  have "(batch_var x j + eps self) powr (1/2) = sqrt (batch_var x j + eps self)" for j
    using batch_var_nonneg [of x j] assms(5) by (simp add: powr_half_sqrt)
  then have ye: "\<forall>i<b. \<forall>j<dim self.
            entry y [i, j] = (entry x [i, j] - batch_mean x j) / sqrt (batch_var x j + eps self)
                               * entry (weight self) [j] + entry (bias self) [j]"
    by (simp add: "1"(4))
  have rme: "\<forall>j<dim self. entry rm [j]
            = momentum self * batch_mean x j + (1 - momentum self) * entry (running_mean self) [j]"
    by (simp add: "1"(7) mult.commute)
  have rve: "\<forall>j<dim self. entry rv [j]
            = momentum self * batch_var x j + (1 - momentum self) * entry (running_var self) [j]"
    by (simp add: "1"(10) mult.commute)
  show ?case
    by (intro exI [of _ y] exI [of _ rm] exI [of _ rv] conjI "1"(1,2,3) ye "1"(5,6) rme "1"(8,9) rve)
qed

theorem BatchNorm1d_training_step_witness:
  "training (BatchNorm1d_init 1 3 (1/10))
   \<and> wf_tensor \<lparr>shape = [2, 1], data = [0, 2]\<rparr>
   \<and> shape \<lparr>shape = [2, 1], data = [0, 2]\<rparr> = [2, dim (BatchNorm1d_init 1 3 (1/10))]
   \<and> 0 < eps (BatchNorm1d_init 1 3 (1/10))
   \<and> BatchNorm1d_inv (BatchNorm1d_init 1 3 (1/10))
   \<and> (\<exists>y rm rv.
        BatchNorm1d_forward (BatchNorm1d_init 1 3 (1/10)) \<lparr>shape = [2, 1], data = [0, 2]\<rparr>
          = (Some y, (BatchNorm1d_init 1 3 (1/10))\<lparr>running_mean := rm, running_var := rv\<rparr>)
        \<and> entry y [0, 0] = - 1/2 \<and> entry y [1, 0] = 1/2
        \<and> entry rm [0] = 1/10 \<and> entry rv [0] = 1)"
proof -
  let ?s = "BatchNorm1d_init 1 3 (1/10)"
  let ?x = "\<lparr>shape = [2, 1], data = [0, 2]\<rparr> :: tensor"
  have h: "training ?s" "wf_tensor ?x" "shape ?x = [2, dim ?s]" "(0::nat) < 2" "0 < eps ?s"
    "BatchNorm1d_inv ?s"
    by (simp_all add: BatchNorm1d_inv_init) (simp_all add: BatchNorm1d_init_def wf_tensor_def)
  have d: "dim ?s = 1" "momentum ?s = 1/10" "eps ?s = 3"
    "weight ?s = init_ones [1]" "bias ?s = init_zeros [1]"
    "running_mean ?s = init_zeros [1]" "running_var ?s = init_ones [1]"
    by (simp_all add: BatchNorm1d_init_def)
  have e: "entry ?x [0, 0] = 0" "entry ?x [1, 0] = 2" "entry (init_ones [1]) [0] = 1"
    "entry (init_zeros [1]) [0] = 0"
    by (simp_all add: entry_def init_ones_def init_zeros_def init_constant_def del: One_nat_def)
  have u: "[0..<2] = [0, 1]" by (simp add: upt_rec)
  have m: "batch_mean ?x 0 = 1" by (simp add: batch_mean_def e u del: One_nat_def)
  have v: "batch_var ?x 0 = 1" by (simp add: batch_var_def e m u del: One_nat_def)
  from BatchNorm1d_training_step [OF h] obtain y rm rv where
    fw: "BatchNorm1d_forward ?s ?x = (Some y, ?s\<lparr>running_mean := rm, running_var := rv\<rparr>)"
    and ye: "\<forall>i<2. \<forall>j<dim ?s.
            entry y [i, j] = (entry ?x [i, j] - batch_mean ?x j) / sqrt (batch_var ?x j + eps ?s)
                               * entry (weight ?s) [j] + entry (bias ?s) [j]"
    and rme: "\<forall>j<dim ?s. entry rm [j]
            = momentum ?s * batch_mean ?x j + (1 - momentum ?s) * entry (running_mean ?s) [j]"
    and rve: "\<forall>j<dim ?s. entry rv [j]
            = momentum ?s * batch_var ?x j + (1 - momentum ?s) * entry (running_var ?s) [j]"
    by blast
  from ye [rule_format, of 0 0] ye [rule_format, of 1 0]
  have "entry y [0, 0] = - 1/2" "entry y [1, 0] = 1/2"
    by (simp_all add: d e m v del: One_nat_def)
  moreover from rme [rule_format, of 0] rve [rule_format, of 0]
  have "entry rm [0] = 1/10" "entry rv [0] = 1"
    by (simp_all add: d e m v del: One_nat_def)
  ultimately show ?thesis
    using h fw by blast
qed

text \<open>
  Claim C2, as amended. A forward call of a single BatchNorm1d whose vectors have the
  constructor's shape is atomic: when it raises, the layer is as it was before the call,
  running statistics included.
\<close>

theorem BatchNorm1d_forward_atomic:
  assumes "BatchNorm1d_inv self" and "wf_tensor x" and "fst (BatchNorm1d_forward self x) = None"
  shows "snd (BatchNorm1d_forward self x) = self"
proof (cases "shape x")
  case Nil
  then show ?thesis by (simp add: BatchNorm1d_forward_def)
next
  case (Cons batch rest)
  show ?thesis
  proof (cases "training self")
    case False
    with Cons show ?thesis by (simp add: BatchNorm1d_forward_def)
  next
    case True
    show ?thesis
    proof (cases "BatchNorm1d_batch_stats self x batch")
      case None
      with Cons True show ?thesis by (simp add: BatchNorm1d_forward_def)
    next
      case (Some r)
      from BatchNorm1d_batch_stats_shape [OF Some Cons] Cons
      have sh: "shape x = [batch, dim self]" by simp
      have "fst (BatchNorm1d_forward self x) \<noteq> None"
        by (rule BatchNorm1d_forward_training [OF True assms(2) sh assms(1)]) simp
      with assms(3) show ?thesis by simp
    qed
  qed
qed

theorem BatchNorm1d_forward_atomic_witness:
  "BatchNorm1d_inv (BatchNorm1d_init 3 (1/100000) (1/10))
   \<and> wf_tensor \<lparr>shape = [1, 2], data = [1, 2]\<rparr>
   \<and> fst (BatchNorm1d_forward (BatchNorm1d_init 3 (1/100000) (1/10)) \<lparr>shape = [1, 2], data = [1, 2]\<rparr>) = None
   \<and> snd (BatchNorm1d_forward (BatchNorm1d_init 3 (1/100000) (1/10)) \<lparr>shape = [1, 2], data = [1, 2]\<rparr>)
       = BatchNorm1d_init 3 (1/100000) (1/10)"
proof -
  let ?s = "BatchNorm1d_init 3 (1/100000) (1/10)"
  let ?x = "\<lparr>shape = [1, 2], data = [1, 2]\<rparr> :: tensor"
  have h1: "BatchNorm1d_inv ?s" by (rule BatchNorm1d_inv_init)
  have h2: "wf_tensor ?x" by (simp add: wf_tensor_def)
  have "BatchNorm1d_forward ?s ?x = (None, ?s)"
    by (rule BatchNorm1d_forward_mismatch [where b = 1 and d = 2]) (simp_all add: BatchNorm1d_init_def)
  then have h3: "fst (BatchNorm1d_forward ?s ?x) = None" by simp
  from h1 h2 h3 BatchNorm1d_forward_atomic [OF h1 h2 h3] show ?thesis by simp
qed

text \<open>
  Claim C2 as stated fails for a composite layer. \<open>Sequential(BatchNorm1d(2),
  BatchNorm1d(3))\<close> on a batch of shape (1, 2): the first child succeeds and updates its
  running mean, the second raises on the shape, and the call as a whole raises with the
  first child's running mean changed.
\<close>

theorem Sequential_forward_not_atomic:
  "fst (Sequential_forward BatchNorm1d_forward
          [BatchNorm1d_init 2 (1/100000) (1/10), BatchNorm1d_init 3 (1/100000) (1/10)]
          \<lparr>shape = [1, 2], data = [1, 2]\<rparr>) = None
   \<and> map running_mean (snd (Sequential_forward BatchNorm1d_forward
          [BatchNorm1d_init 2 (1/100000) (1/10), BatchNorm1d_init 3 (1/100000) (1/10)]
          \<lparr>shape = [1, 2], data = [1, 2]\<rparr>))
       \<noteq> map running_mean [BatchNorm1d_init 2 (1/100000) (1/10), BatchNorm1d_init 3 (1/100000) (1/10)]"
proof -
  let ?s2 = "BatchNorm1d_init 2 (1/100000) (1/10)"
  let ?s3 = "BatchNorm1d_init 3 (1/100000) (1/10)"
  let ?x = "\<lparr>shape = [1, 2], data = [1, 2]\<rparr> :: tensor"
  have h: "training ?s2" "wf_tensor ?x" "shape ?x = [1, dim ?s2]" "BatchNorm1d_inv ?s2"
    by (simp_all add: BatchNorm1d_inv_init) (simp_all add: BatchNorm1d_init_def wf_tensor_def)
  show ?thesis
  proof (rule BatchNorm1d_forward_training [OF h], goal_cases)
    case (1 y rm rv)
    have d: "dim ?s2 = 2" "momentum ?s2 = 1/10" "running_mean ?s2 = init_zeros [2]"
      by (simp_all add: BatchNorm1d_init_def)
    have "batch_mean ?x 0 = 1" by (simp add: batch_mean_def entry_def)
    with "1"(7) [of 0] have "entry rm [0] = 1/10"
      by (simp add: d entry_def init_zeros_def init_constant_def)
    moreover have "entry (running_mean ?s2) [0] = 0"
      by (simp add: d entry_def init_zeros_def init_constant_def)
    ultimately have ne: "rm \<noteq> running_mean ?s2" by auto
    have "shape y = [1, 2]" using "1"(3) by (simp add: d)
    then have "BatchNorm1d_forward ?s3 y = (None, ?s3)"
      by (rule BatchNorm1d_forward_mismatch [rotated]) (simp_all add: BatchNorm1d_init_def)
    with "1"(1) ne show ?case by simp
  qed
qed

section \<open>MultiHeadAttention: lemmas\<close>

lemma valid4: "valid_index [B, H, m, n] idx \<longleftrightarrow>
    (\<exists>b h i j. idx = [b, h, i, j] \<and> b < B \<and> h < H \<and> i < m \<and> j < n)"
  by (auto simp: valid_index_def list_all2_Cons2)

lemma valid5: "valid_index [B, H, m, n, d] [b, h, i, j, k] \<longleftrightarrow> b < B \<and> h < H \<and> i < m \<and> j < n \<and> k < d"
  by (auto simp: valid_index_def)

text \<open>
  Claim C4. For rank-4 tensors \<open>a\<close> of shape (B, H, m, d) and \<open>b_transpose\<close> of shape
  (B, H, n, d), \<open>MultiHeadAttention.matmul\<close> (a singleton axis inserted in each
  operand, both broadcast to (B, H, m, n, d), the elementwise product summed over the
  last axis) returns the reference batched matrix product, whose entry at (b, h, i, j)
  is the sum over k of \<open>a[b,h,i,k] * b_transpose[b,h,j,k]\<close>.
\<close>

theorem matmul_is_batched_product:
  assumes a: "wf_tensor a" "shape a = [B, H, m, d]"
    and b: "wf_tensor b_transpose" "shape b_transpose = [B, H, n, d]"
  shows "MultiHeadAttention_matmul a b_transpose = Some (batched_matmul_reference a b_transpose)
    \<and> wf_tensor (batched_matmul_reference a b_transpose)
    \<and> shape (batched_matmul_reference a b_transpose) = [B, H, m, n]
    \<and> (\<forall>b<B. \<forall>h<H. \<forall>i<m. \<forall>j<n.
          entry (batched_matmul_reference a b_transpose) [b, h, i, j]
            = (\<Sum>k<d. entry a [b, h, i, k] * entry b_transpose [b, h, j, k]))"
proof -
  let ?a1 = "a\<lparr>shape := [B, H, m, Suc 0, d]\<rparr>" and ?b1 = "b_transpose\<lparr>shape := [B, H, Suc 0, n, d]\<rparr>"
  let ?s = "[B, H, m, n, d]"
  let ?a2 = "tabulate ?s (\<lambda>idx. entry ?a1 (broadcast_index [B, H, m, Suc 0, d] idx))"
  let ?b2 = "tabulate ?s (\<lambda>idx. entry ?b1 (broadcast_index [B, H, Suc 0, n, d] idx))"
  have r1: "reshape a [B, H, m, Suc 0, d] = Some ?a1" by (simp add: reshape_def a)
  have r2: "reshape b_transpose [B, H, Suc 0, n, d] = Some ?b1" by (simp add: reshape_def b)
  have b1: "broadcast_to ?a1 ?s = Some ?a2" by (simp add: broadcast_to_def)
  have b2: "broadcast_to ?b1 ?s = Some ?b2" by (simp add: broadcast_to_def)
  from ewise_props [of ?a2 ?b2 "\<lambda>u v. u * v"] obtain c where
    c: "ewise_mul ?a2 ?b2 = Some c" "wf_tensor c" "shape c = ?s"
      "\<And>idx. valid_index ?s idx \<Longrightarrow> entry c idx = entry ?a2 idx * entry ?b2 idx"
    unfolding ewise_mul_def by (auto simp: wf_tabulate shape_tabulate)
  have ea: "entry ?a2 [b, h, i, j, k] = entry a [b, h, i, k]"
    if "b < B" "h < H" "i < m" "j < n" "k < d" for b h i j k
  proof -
    have "entry ?a2 [b, h, i, j, k] = entry ?a1 (broadcast_index [B, H, m, Suc 0, d] [b, h, i, j, k])"
      using that by (simp add: entry_tabulate valid5)
    also have "broadcast_index [B, H, m, Suc 0, d] [b, h, i, j, k] = [b, h, i, 0, k]"
      using that by (auto simp: broadcast_index_def)
    also have "entry ?a1 [b, h, i, 0, k] = entry a [b, h, i, k]"
      by (simp add: entry_def a)
    finally show ?thesis .
  qed
  have eb: "entry ?b2 [b, h, i, j, k] = entry b_transpose [b, h, j, k]"
    if "b < B" "h < H" "i < m" "j < n" "k < d" for b h i j k
  proof -
    have "entry ?b2 [b, h, i, j, k] = entry ?b1 (broadcast_index [B, H, Suc 0, n, d] [b, h, i, j, k])"
      using that by (simp add: entry_tabulate valid5)
    also have "broadcast_index [B, H, Suc 0, n, d] [b, h, i, j, k] = [b, h, 0, j, k]"
      using that by (auto simp: broadcast_index_def)
    also have "entry ?b1 [b, h, 0, j, k] = entry b_transpose [b, h, j, k]"
      by (simp add: entry_def b)
    finally show ?thesis .
  qed
  have "MultiHeadAttention_matmul a b_transpose = summation c 4"
    by (simp add: MultiHeadAttention_matmul_def a b r1 r2 py_index_neg_def py_set_neg_def b1 b2 c(1)
        shape_tabulate Let_def eval_nat_numeral)
  also have "\<dots> = Some (tabulate [B, H, m, n]
       (\<lambda>idx. sum_list (map (\<lambda>k. entry c (put_axis 4 k idx)) [0..<d])))"
    by (simp add: summation_def c(3) drop_axis_def)
  also have "tabulate [B, H, m, n] (\<lambda>idx. sum_list (map (\<lambda>k. entry c (put_axis 4 k idx)) [0..<d]))
      = tabulate [B, H, m, n] (\<lambda>idx. \<Sum>k<d.
          entry a [idx ! 0, idx ! 1, idx ! 2, k] * entry b_transpose [idx ! 0, idx ! 1, idx ! 3, k])"
  proof (rule tabulate_cong)
    fix idx assume "valid_index [B, H, m, n] idx"
    then obtain b h i j where idx: "idx = [b, h, i, j]" and lt: "b < B" "h < H" "i < m" "j < n"
      by (auto simp: valid4)
    have "(\<Sum>k\<leftarrow>[0..<d]. entry c (put_axis 4 k idx))
        = (\<Sum>k\<leftarrow>[0..<d]. entry a [b, h, i, k] * entry b_transpose [b, h, j, k])"
      by (rule arg_cong [where f = sum_list], rule map_cong)
        (simp_all add: idx put_axis_def c(4) valid5 lt ea eb)
    also have "\<dots> = (\<Sum>k<d. entry a [b, h, i, k] * entry b_transpose [b, h, j, k])"
      by (simp add: interv_sum_list_conv_sum_set_nat atLeast0LessThan)
    finally show "(\<Sum>k\<leftarrow>[0..<d]. entry c (put_axis 4 k idx))
        = (\<Sum>k<d. entry a [idx ! 0, idx ! 1, idx ! 2, k] * entry b_transpose [idx ! 0, idx ! 1, idx ! 3, k])"
      by (simp add: idx)
  qed
  also have "\<dots> = batched_matmul_reference a b_transpose"
    by (simp add: batched_matmul_reference_def a b)
  finally have main: "MultiHeadAttention_matmul a b_transpose = Some (batched_matmul_reference a b_transpose)" .
  have ref: "entry (batched_matmul_reference a b_transpose) [b, h, i, j]
            = (\<Sum>k<d. entry a [b, h, i, k] * entry b_transpose [b, h, j, k])"
    if "b < B" "h < H" "i < m" "j < n" for b h i j
    using that by (simp add: batched_matmul_reference_def a b entry_tabulate valid_index_def)
  have "wf_tensor (batched_matmul_reference a b_transpose)"
    "shape (batched_matmul_reference a b_transpose) = [B, H, m, n]"
    by (simp_all add: batched_matmul_reference_def a b wf_tabulate shape_tabulate)
  with main ref show ?thesis by simp
qed

theorem matmul_is_batched_product_witness:
  "wf_tensor \<lparr>shape = [1, 1, 2, 2], data = [1, 2, 3, 4]\<rparr>
   \<and> wf_tensor \<lparr>shape = [1, 1, 3, 2], data = [1, 0, 0, 1, 1, 1]\<rparr>
   \<and> MultiHeadAttention_matmul \<lparr>shape = [1, 1, 2, 2], data = [1, 2, 3, 4]\<rparr>
         \<lparr>shape = [1, 1, 3, 2], data = [1, 0, 0, 1, 1, 1]\<rparr>
       = Some (batched_matmul_reference \<lparr>shape = [1, 1, 2, 2], data = [1, 2, 3, 4]\<rparr>
         \<lparr>shape = [1, 1, 3, 2], data = [1, 0, 0, 1, 1, 1]\<rparr>)
   \<and> batched_matmul_reference \<lparr>shape = [1, 1, 2, 2], data = [1, 2, 3, 4]\<rparr>
         \<lparr>shape = [1, 1, 3, 2], data = [1, 0, 0, 1, 1, 1]\<rparr>
       = \<lparr>shape = [1, 1, 2, 3], data = [1, 2, 3, 3, 4, 7]\<rparr>"
proof -
  let ?a = "\<lparr>shape = [1, 1, 2, 2], data = [1, 2, 3, 4]\<rparr> :: tensor"
  let ?b = "\<lparr>shape = [1, 1, 3, 2], data = [1, 0, 0, 1, 1, 1]\<rparr> :: tensor"
  have h: "wf_tensor ?a" "shape ?a = [1, 1, 2, 2]" "wf_tensor ?b" "shape ?b = [1, 1, 3, 2]"
    by (simp_all add: wf_tensor_def)
  have v: "batched_matmul_reference ?a ?b = \<lparr>shape = [1, 1, 2, 3], data = [1, 2, 3, 3, 4, 7]\<rparr>"
    by code_simp
  from matmul_is_batched_product [OF h] h v show ?thesis by simp
qed

section \<open>Softmax: lemmas\<close>












lemma summation_with_sum_list: "summation_with sum_list t ax = summation t ax"
  by (simp add: summation_with_def summation_def)







subsection \<open>Float32 rounding at the values of the examples\<close>




















section \<open>Conv: lemmas\<close>

lemma transpose_axes_props:
  assumes "transpose_axes t i j = Some r"
  shows "wf_tensor r" and "shape r = swap_axes i j (shape t)"
    and "\<And>idx. valid_index (swap_axes i j (shape t)) idx \<Longrightarrow> entry r idx = entry t (swap_axes i j idx)"
  using assms
  by (auto simp: transpose_axes_def wf_tabulate shape_tabulate entry_tabulate split: if_splits)

lemma swap4:
  "swap_axes 1 2 [a, b, c, d] = [a, c, b, d]"
  "swap_axes 2 3 [a, b, c, d] = [a, b, d, c]"
  "swap_axes (Suc 0) 2 [a, b, c, d] = [a, c, b, d]"
  by (simp_all add: swap_axes_def eval_nat_numeral)

lemma valid4_list:
  "valid_index [A, B, C, D] [a, b, c, d] \<longleftrightarrow> a < A \<and> b < B \<and> c < C \<and> d < D"
  by (auto simp: valid_index_def)

lemma nhwc_to_nchw:
  assumes "shape t = [N, H, W, C]"
  obtains y where "do { y1 \<leftarrow> transpose_axes t 2 3; transpose_axes y1 1 2 } = Some y"
    and "wf_tensor y" and "shape y = [N, C, H, W]"
    and "\<And>n c h w. n < N \<Longrightarrow> c < C \<Longrightarrow> h < H \<Longrightarrow> w < W \<Longrightarrow> entry y [n, c, h, w] = entry t [n, h, w, c]"
proof -
  obtain y1 where y1: "transpose_axes t 2 3 = Some y1"
    by (simp add: transpose_axes_def assms)
  note p1 = transpose_axes_props [OF y1, unfolded assms swap4]
  obtain y where y: "transpose_axes y1 1 2 = Some y"
    by (simp add: transpose_axes_def p1(2))
  note p2 = transpose_axes_props [OF y, unfolded p1(2) swap4]
  have "entry y [n, c, h, w] = entry t [n, h, w, c]" if "n < N" "c < C" "h < H" "w < W" for n c h w
    using that by (simp add: p2(3) p1(3) valid4_list swap4)
  moreover have "do { y1 \<leftarrow> transpose_axes t 2 3; transpose_axes y1 1 2 } = Some y"
    by (simp only: y1 y Option.bind.simps)
  ultimately show thesis
    using p2(1,2) that by blast
qed

lemma nchw_to_nhwc_Some:
  assumes "shape x = [N, C, H, W]"
  shows "\<exists>xh. nchw_to_nhwc x = Some xh"
  by (simp add: nchw_to_nhwc_def transpose_axes_def assms shape_tabulate swap_axes_def)

lemma Conv_init_bias:
  assumes "Conv_init rand in_c out_c ks st True = Some self"
  shows "\<exists>lo hi. Conv.bias self = Some (rand [out_c] lo hi)" and "out_channels self = out_c"
  using assms
  by (fastforce simp: Conv_init_def split: bind_splits if_splits)+

lemma channel_broadcast:
  assumes "wf_tensor t" and "shape t = [C]"
  obtains tb where "do { t1 \<leftarrow> reshape t [1, 1, 1, C]; broadcast_to t1 [N, H, W, C] } = Some tb"
    and "wf_tensor tb" and "shape tb = [N, H, W, C]"
    and "\<And>n h w c. n < N \<Longrightarrow> h < H \<Longrightarrow> w < W \<Longrightarrow> c < C \<Longrightarrow> entry tb [n, h, w, c] = entry t [c]"
proof -
  let ?t1 = "t\<lparr>shape := [1, 1, 1, C]\<rparr>"
  let ?tb = "tabulate [N, H, W, C] (\<lambda>idx. entry ?t1 (broadcast_index [1, 1, 1, C] idx))"
  have r: "reshape t [1, 1, 1, C] = Some ?t1"
    by (simp add: reshape_def assms)
  have b: "broadcast_to ?t1 [N, H, W, C] = Some ?tb"
    by (simp add: broadcast_to_def)
  have e: "entry ?tb [n, h, w, c] = entry t [c]" if "n < N" "h < H" "w < W" "c < C" for n h w c
  proof -
    have "entry ?tb [n, h, w, c] = entry ?t1 (broadcast_index [1, 1, 1, C] [n, h, w, c])"
      using that by (simp add: entry_tabulate valid4_list)
    also have "broadcast_index [1, 1, 1, C] [n, h, w, c] = [0, 0, 0, c]"
      using that by (auto simp: broadcast_index_def)
    also have "entry ?t1 [0, 0, 0, c] = entry t [c]"
      by (simp add: entry_def assms)
    finally show ?thesis .
  qed
  have "do { t1 \<leftarrow> reshape t [1, 1, 1, C]; broadcast_to t1 [N, H, W, C] } = Some ?tb"
    by (simp only: r b Option.bind.simps)
  then show thesis
    using wf_tabulate shape_tabulate e by (rule that)
qed

text \<open>
  Claim C7. For a Conv constructed with \<open>bias=True\<close> and an input in NCHW layout on
  which the convolution primitive returns a channel-last tensor \<open>out\<close> of shape
  (N, H', W', out_channels), \<open>forward\<close> returns the tensor of shape
  (N, out_channels, H', W') whose entry at (n, c, h, w) is \<open>out[n,h,w,c] + bias[c]\<close>:
  the bias, reshaped to (1, 1, 1, out_channels) and broadcast, is added before the
  conversion back to channel-first. This holds whatever truth value the engine gives a
  Tensor, as long as a Tensor with a non-zero entry is true.
\<close>

theorem Conv_forward_adds_bias:
  assumes init: "Conv_init rand in_c out_c ks st True = Some self"
    and rand: "\<And>s lo hi. wf_tensor (rand s lo hi) \<and> shape (rand s lo hi) = s"
    and truth: "\<And>t idx. \<not> truth t \<Longrightarrow> valid_index (shape t) idx \<Longrightarrow> entry t idx = 0"
    and x: "wf_tensor x" "shape x = [N, C, H, W]"
    and xh: "nchw_to_nhwc x = Some xh"
    and conv: "conv xh (Conv.weight self) (stride self) (padding self) = Some out"
    and out: "wf_tensor out" "shape out = [N, H', W', out_c]"
  shows "\<exists>b y. Conv.bias self = Some b \<and> wf_tensor b \<and> shape b = [out_c]
      \<and> Conv_forward truth conv self x = Some y \<and> wf_tensor y \<and> shape y = [N, out_c, H', W']
      \<and> (\<forall>n<N. \<forall>c<out_c. \<forall>h<H'. \<forall>w<W'.
            entry y [n, c, h, w] = entry out [n, h, w, c] + entry b [c])"
proof -
  from Conv_init_bias [OF init] rand obtain b where
    b: "Conv.bias self = Some b" "wf_tensor b" "shape b = [out_c]" and oc: "out_channels self = out_c"
    by auto
  have "\<exists>o1. (if truth b
            then do { b1 \<leftarrow> reshape b [1, 1, 1, out_c]; b2 \<leftarrow> broadcast_to b1 (shape out); ewise_add out b2 }
            else Some out) = Some o1
        \<and> wf_tensor o1 \<and> shape o1 = [N, H', W', out_c]
        \<and> (\<forall>n<N. \<forall>h<H'. \<forall>w<W'. \<forall>c<out_c. entry o1 [n, h, w, c] = entry out [n, h, w, c] + entry b [c])"
  proof (cases "truth b")
    case False
    have "entry b [c] = 0" if "c < out_c" for c
      using truth [OF False, of "[c]"] that by (simp add: b valid_index_def)
    with False out show ?thesis by simp
  next
    case True
    show ?thesis
    proof (rule channel_broadcast [OF b(2,3), of N H' W'], goal_cases)
      case (1 bb)
      from ewise_props [of out bb "\<lambda>u v. u + v"] out "1"(2,3) obtain o1 where
        o1: "ewise_add out bb = Some o1" "wf_tensor o1" "shape o1 = [N, H', W', out_c]"
          "\<And>idx. valid_index [N, H', W', out_c] idx \<Longrightarrow> entry o1 idx = entry out idx + entry bb idx"
        unfolding ewise_add_def by auto
      have "do { b1 \<leftarrow> reshape b [1, 1, 1, out_c]; b2 \<leftarrow> broadcast_to b1 (shape out); ewise_add out b2 }
          = do { b2 \<leftarrow> do { b1 \<leftarrow> reshape b [1, 1, 1, out_c]; broadcast_to b1 [N, H', W', out_c] };
                 ewise_add out b2 }"
        by (simp add: out(2) del: One_nat_def)
      also have "\<dots> = Some o1"
        by (simp only: "1"(1) o1(1) Option.bind.simps)
      finally have "(if truth b
            then do { b1 \<leftarrow> reshape b [1, 1, 1, out_c]; b2 \<leftarrow> broadcast_to b1 (shape out); ewise_add out b2 }
            else Some out) = Some o1"
        using True by simp
      moreover have "\<forall>n<N. \<forall>h<H'. \<forall>w<W'. \<forall>c<out_c.
          entry o1 [n, h, w, c] = entry out [n, h, w, c] + entry b [c]"
        by (simp add: o1(4) valid4_list "1"(4))
      ultimately show ?case using o1(2,3) by blast
    qed
  qed
  then obtain o1 where
    o1: "(if truth b
            then do { b1 \<leftarrow> reshape b [1, 1, 1, out_c]; b2 \<leftarrow> broadcast_to b1 (shape out); ewise_add out b2 }
            else Some out) = Some o1"
      "wf_tensor o1" "shape o1 = [N, H', W', out_c]"
      "\<And>n h w c. n < N \<Longrightarrow> h < H' \<Longrightarrow> w < W' \<Longrightarrow> c < out_c \<Longrightarrow>
          entry o1 [n, h, w, c] = entry out [n, h, w, c] + entry b [c]"
    by blast
  show ?thesis
  proof (rule nhwc_to_nchw [OF o1(3)], goal_cases)
    case (1 y)
    from xh obtain x1 where x1: "transpose_axes x 1 2 = Some x1" "transpose_axes x1 2 3 = Some xh"
      by (auto simp: nchw_to_nhwc_def split: bind_splits)
    have "Conv_forward truth conv self x =
        do { z \<leftarrow> (if truth b
                  then do { b1 \<leftarrow> reshape b [1, 1, 1, out_c]; b2 \<leftarrow> broadcast_to b1 (shape out);
                            ewise_add out b2 }
                  else Some out);
             y1 \<leftarrow> transpose_axes z 2 3;
             transpose_axes y1 1 2 }"
      by (simp add: Conv_forward_def x1 conv b(1) oc del: One_nat_def)
    also have "\<dots> = Some y"
      by (simp only: o1(1) "1"(1) Option.bind.simps)
    finally have fw: "Conv_forward truth conv self x = Some y" .
    have "\<forall>n<N. \<forall>c<out_c. \<forall>h<H'. \<forall>w<W'. entry y [n, c, h, w] = entry out [n, h, w, c] + entry b [c]"
      by (simp add: "1"(4) o1(4))
    with b fw "1"(2,3) show ?case by blast
  qed
qed

theorem Conv_forward_adds_bias_witness:
  "Conv_init (\<lambda>s lo hi. init_ones s) 1 2 (IntArg 1) (TupleArg [1, 1]) True
     = Some \<lparr>training = True, in_channels = 1, out_channels = 2, kernel_size = 1, stride = 1,
             padding = 0, Conv.weight = init_ones [1, 1, 1, 2], Conv.bias = Some (init_ones [2])\<rparr>
   \<and> (\<exists>y. Conv_forward (\<lambda>t. True) (\<lambda>xh w s q. Some (init_zeros [1, 1, 1, 2]))
            \<lparr>training = True, in_channels = 1, out_channels = 2, kernel_size = 1, stride = 1,
             padding = 0, Conv.weight = init_ones [1, 1, 1, 2], Conv.bias = Some (init_ones [2])\<rparr>
            (init_zeros [1, 1, 1, 1]) = Some y
          \<and> shape y = [1, 2, 1, 1] \<and> entry y [0, 1, 0, 0] = 1)"
proof -
  let ?self = "\<lparr>training = True, in_channels = 1, out_channels = 2, kernel_size = 1, stride = 1,
             padding = 0, Conv.weight = init_ones [1, 1, 1, 2], Conv.bias = Some (init_ones [2])\<rparr>"
  let ?rand = "\<lambda>(s::nat list) (lo::real) (hi::real). init_ones s"
  let ?conv = "\<lambda>(xh::tensor) (w::tensor) (s::nat) (q::int). Some (init_zeros [1, 1, 1, 2])"
  let ?x = "init_zeros [1, 1, 1, 1]"
  have i: "Conv_init ?rand 1 2 (IntArg 1) (TupleArg [1, 1]) True = Some ?self"
    by (simp add: Conv_init_def kaiming_uniform_def)
  have r: "wf_tensor (?rand s lo hi) \<and> shape (?rand s lo hi) = s" for s lo hi
    by (simp add: init_ones_def wf_init_constant)
  have x: "wf_tensor ?x" "shape ?x = [1, 1, 1, 1]"
    by (simp_all add: init_zeros_def wf_init_constant)
  from nchw_to_nhwc_Some [OF x(2)] obtain xh where xh: "nchw_to_nhwc ?x = Some xh" ..
  have c: "?conv xh (Conv.weight ?self) (stride ?self) (padding ?self) = Some (init_zeros [1, 1, 1, 2])"
    by simp
  have o: "wf_tensor (init_zeros [1, 1, 1, 2])" "shape (init_zeros [1, 1, 1, 2]) = [1, 1, 1, 2]"
    by (simp_all add: init_zeros_def wf_init_constant)
  from Conv_forward_adds_bias [of ?rand 1 2 "IntArg 1" "TupleArg [1, 1]" ?self "\<lambda>t. True" ?x 1 1 1 1 xh
      ?conv "init_zeros [1, 1, 1, 2]" 1 1, OF i r _ x xh c o]
  obtain b y where b: "Conv.bias ?self = Some b"
    and y: "Conv_forward (\<lambda>t. True) ?conv ?self ?x = Some y" "shape y = [1, 2, 1, 1]"
    and e: "\<forall>n<1. \<forall>c<2. \<forall>h<1. \<forall>w<1.
            entry y [n, c, h, w] = entry (init_zeros [1, 1, 1, 2]) [n, h, w, c] + entry b [c]"
    by auto
  from b have "b = init_ones [2]" by simp
  with e [rule_format, of 0 1 0 0] have "entry y [0, 1, 0, 0] = 1"
    by (simp add: entry_def init_zeros_def init_ones_def init_constant_def)
  with i y show ?thesis by blast
qed

end
